theory Spec2Isabelle
  imports Main
begin

section \<open>Input records and request payloads\<close>

text \<open>
  An input record is the JSON object that \<^verbatim>\<open>tm_importer.py\<close> reads with
  \<^verbatim>\<open>entity.get(...)\<close>: every key but \<^verbatim>\<open>entity_id\<close> may be absent, and
  \<^verbatim>\<open>.get\<close> then yields \<^verbatim>\<open>None\<close>. The data model requires \<^verbatim>\<open>entity_id\<close>.
\<close>

type_synonym props = "(string \<times> string) list"

record entity_record =
  entity_id :: string
  parent_entity_id :: "string option"
  entity_name :: "string option"
  parent_name :: "string option"
  component_type :: "string option"
  description :: "string option"
  properties :: "props option"
  template_parameters :: "string list option"

text \<open>The dictionary \<^verbatim>\<open>{"attributes": {"componentTypeId": .., "properties": ..}}\<close>.\<close>

record components =
  componentTypeId :: "string option"
  comp_properties :: props

text \<open>
  The keyword arguments of \<^verbatim>\<open>create_entity\<close>. The dictionary that \<^verbatim>\<open>create_root\<close>
  builds has no \<^verbatim>\<open>parentEntityId\<close> key, hence the option.
\<close>

record entity_request =
  entityName :: "string option"
  entityId :: string
  parentEntityId :: "string option"
  ntt_description :: "string option"
  workspaceId :: string

text \<open>Python truthiness of an optional string: \<^verbatim>\<open>None\<close> and \<^verbatim>\<open>""\<close> are false.\<close>

definition truthy :: "string option \<Rightarrow> bool" where
  "truthy s = (case s of None \<Rightarrow> False | Some v \<Rightarrow> v \<noteq> [])"

section \<open>The process, the remote service and the observed calls\<close>

datatype exn = ResourceNotFound | AlreadyExists | TransportOrAuthFailure

datatype api_call =
    ListWorkspaces
  | CreateBucket string
  | WaitBucketExists string
  | CreateWorkspace string string string
  | ListComponentTypes string
  | CreateComponentType string string
  | WaitOverGetComponentType string string
  | GetEntity string string
  | CreateEntity entity_request "components option"
  | WaitOverGetEntity string string

text \<open>
  The world threaded through every function: the two module-level caches
  (\<^verbatim>\<open>created_component_types\<close>, \<^verbatim>\<open>created_entities\<close>: dictionaries used as sets of
  keys), the state of the remote service, the faults the remote calls still have to
  meet, and the remote calls issued so far, oldest first.
\<close>

record world =
  created_component_types :: "string set"
  created_entities :: "string set"
  workspaces :: "string list"
  component_types :: "(string \<times> string) list"
  entities :: "(string \<times> string) set"
  faults :: "exn option list"
  caller_role :: string
  calls :: "api_call list"

text \<open>
  A call returns a value, raises, or has not returned when the recursion budget of
  the model is used up (\<open>Diverge\<close>; only the recursive resolver produces it).
\<close>

datatype 'a res = Return 'a | Raise exn | Diverge

definition ret :: "'a \<Rightarrow> world \<Rightarrow> 'a res \<times> world" where
  "ret x w = (Return x, w)"

definition bnd ::
  "(world \<Rightarrow> 'a res \<times> world) \<Rightarrow> ('a \<Rightarrow> world \<Rightarrow> 'b res \<times> world) \<Rightarrow> world \<Rightarrow> 'b res \<times> world"
where
  "bnd m f w =
     (case m w of
        (Return x, w') \<Rightarrow> f x w'
      | (Raise e, w') \<Rightarrow> (Raise e, w')
      | (Diverge, w') \<Rightarrow> (Diverge, w'))"

subsection \<open>The remote service\<close>

text \<open>
  Modelled from the spec: the boto3 clients (\<^verbatim>\<open>library.boto3_session\<close>) are not
  under src/. Every remote call is recorded, then meets the next scheduled fault, if
  any: a fault is raised by the call (transport or authorisation failure, or any other
  error of the taxonomy); without one the call behaves as the service does.
\<close>

definition remote_call :: "api_call \<Rightarrow> world \<Rightarrow> unit res \<times> world" where
  "remote_call c w =
     (let w1 = w\<lparr>calls := calls w @ [c]\<rparr>
      in case faults w1 of
           [] \<Rightarrow> (Return (), w1)
         | None # fs \<Rightarrow> (Return (), w1\<lparr>faults := fs\<rparr>)
         | Some e # fs \<Rightarrow> (Raise e, w1\<lparr>faults := fs\<rparr>))"

text \<open>
  Modelled from the spec: \<^verbatim>\<open>getEntity(workspaceId, id) -> status|NotFound\<close>.
\<close>

definition client_get_entity :: "string \<Rightarrow> string \<Rightarrow> world \<Rightarrow> unit res \<times> world" where
  "client_get_entity ws eid =
     bnd (remote_call (GetEntity ws eid))
       (\<lambda>_ w. if (ws, eid) \<in> entities w then (Return (), w) else (Raise ResourceNotFound, w))"

text \<open>
  Modelled from the spec: \<^verbatim>\<open>createEntity\<close>; creating an id that exists in the
  workspace raises \<open>AlreadyExists\<close>.
\<close>

definition client_create_entity ::
  "entity_request \<Rightarrow> components option \<Rightarrow> world \<Rightarrow> unit res \<times> world"
where
  "client_create_entity ntt comps =
     bnd (remote_call (CreateEntity ntt comps))
       (\<lambda>_ w. if (workspaceId ntt, entityId ntt) \<in> entities w then (Raise AlreadyExists, w)
               else (Return (), w\<lparr>entities := insert (workspaceId ntt, entityId ntt) (entities w)\<rparr>))"

text \<open>
  Modelled from the spec: \<^verbatim>\<open>listComponentTypes(workspaceId)\<close>; the summaries are
  returned as the list of the component type ids of the workspace.
\<close>

definition client_list_component_types :: "string \<Rightarrow> world \<Rightarrow> string list res \<times> world" where
  "client_list_component_types ws =
     bnd (remote_call (ListComponentTypes ws))
       (\<lambda>_ w. (Return (map snd (filter (\<lambda>p. fst p = ws) (component_types w))), w))"

text \<open>Modelled from the spec: \<^verbatim>\<open>createComponentType(workspaceId, id, propertyDefinitions)\<close>.\<close>

definition client_create_component_type :: "string \<Rightarrow> string \<Rightarrow> world \<Rightarrow> unit res \<times> world" where
  "client_create_component_type ws c =
     bnd (remote_call (CreateComponentType ws c))
       (\<lambda>_ w. if (ws, c) \<in> set (component_types w) then (Raise AlreadyExists, w)
               else (Return (), w\<lparr>component_types := component_types w @ [(ws, c)]\<rparr>))"

text \<open>Modelled from the spec: \<^verbatim>\<open>listWorkspaces\<close>.\<close>

definition client_list_workspaces :: "world \<Rightarrow> string list res \<times> world" where
  "client_list_workspaces =
     bnd (remote_call ListWorkspaces) (\<lambda>_ w. (Return (workspaces w), w))"

text \<open>Modelled from the spec: \<^verbatim>\<open>createWorkspace(id, storageLocation, roleArn)\<close>.\<close>

definition client_create_workspace :: "string \<Rightarrow> string \<Rightarrow> string \<Rightarrow> world \<Rightarrow> unit res \<times> world" where
  "client_create_workspace ws s3Location role =
     bnd (remote_call (CreateWorkspace ws s3Location role))
       (\<lambda>_ w. if ws \<in> set (workspaces w) then (Raise AlreadyExists, w)
               else (Return (), w\<lparr>workspaces := workspaces w @ [ws]\<rparr>))"

text \<open>
  Modelled from the spec: \<^verbatim>\<open>library.wait_over\<close> (the Activation Waiter) is not under
  src/. It polls the given operation until the status field equals the target and then
  returns; the remote service is taken to activate what it accepted, so the polling is
  one recorded interaction that returns, or raises the fault the poll meets.
\<close>

definition wait_over :: "api_call \<Rightarrow> world \<Rightarrow> unit res \<times> world" where
  "wait_over poll = remote_call poll"

text \<open>
  Modelled from the spec: \<^verbatim>\<open>library.get_role_from_identity\<close>
  (\<^verbatim>\<open>resolveCallerRoleArn() -> string\<close>) is not under src/.
\<close>

definition get_role_from_identity :: "world \<Rightarrow> string res \<times> world" where
  "get_role_from_identity w = (Return (caller_role w), w)"

section \<open>The importer\<close>

definition create_properties_component :: "string \<Rightarrow> string option \<Rightarrow> world \<Rightarrow> unit res \<times> world" where
  "create_properties_component workspace_id comp_id w =
     (if (case comp_id of None \<Rightarrow> False | Some c \<Rightarrow> c \<in> created_component_types w)
      then (Return (), w)
      else case comp_id of
        None \<Rightarrow> (Return (), w)
      | Some c \<Rightarrow>
          if c = [] then (Return (), w)
          else bnd (client_list_component_types workspace_id)
            (\<lambda>cs w1.
               if c \<in> set cs
               then (Return (), w1\<lparr>created_component_types := insert c (created_component_types w1)\<rparr>)
               else bnd (client_create_component_type workspace_id c)
                 (\<lambda>_. bnd (wait_over (WaitOverGetComponentType workspace_id c))
                   (\<lambda>_ w2. (Return (),
                      w2\<lparr>created_component_types := insert c (created_component_types w2)\<rparr>))) w1) w)"

definition create_workspace :: "string \<Rightarrow> string option \<Rightarrow> world \<Rightarrow> unit res \<times> world" where
  "create_workspace workspace_id iottwinmaker_role_arn =
     bnd client_list_workspaces
       (\<lambda>ws. if workspace_id \<in> set ws then ret ()
             else (let bucket_name = ''iottwinmaker-'' @ workspace_id
                   in bnd (remote_call (CreateBucket bucket_name))
                     (\<lambda>_. bnd (remote_call (WaitBucketExists bucket_name))
                       (\<lambda>_. bnd (case iottwinmaker_role_arn of
                                    None \<Rightarrow> get_role_from_identity
                                  | Some r \<Rightarrow> if r \<noteq> [] then ret r else get_role_from_identity)
                         (\<lambda>iot_role. client_create_workspace workspace_id
                            (''arn:aws:s3:::'' @ bucket_name) iot_role)))))"

definition payload :: "entity_record \<Rightarrow> string option \<Rightarrow> components" where
  "payload entity comp_id =
     \<lparr>componentTypeId = comp_id,
      comp_properties = (case properties entity of None \<Rightarrow> [] | Some p \<Rightarrow> p)\<rparr>"

definition populate_assets ::
  "entity_record \<Rightarrow> string option \<Rightarrow> string \<Rightarrow> world \<Rightarrow> components res \<times> world"
where
  "populate_assets entity comp_id workspace_id =
     bnd (create_properties_component workspace_id comp_id)
       (\<lambda>_. ret (payload entity comp_id))"

definition entity_exists :: "string \<Rightarrow> string \<Rightarrow> world \<Rightarrow> bool res \<times> world" where
  "entity_exists workspace_id eid w =
     (if eid \<in> created_entities w then (Return True, w)
      else case client_get_entity workspace_id eid w of
             (Return _, w1) \<Rightarrow>
               (Return True, w1\<lparr>created_entities := insert eid (created_entities w1)\<rparr>)
           | (Raise _, w1) \<Rightarrow> (Return False, w1)
           | (Diverge, w1) \<Rightarrow> (Diverge, w1))"

fun get_parent_from_input :: "entity_record list \<Rightarrow> string \<Rightarrow> entity_record option" where
  "get_parent_from_input [] parent_id = None"
| "get_parent_from_input (entity # input_entities) parent_id =
     (if parent_id = entity_id entity then Some entity
      else get_parent_from_input input_entities parent_id)"

definition create_root :: "string \<Rightarrow> string option \<Rightarrow> string \<Rightarrow> entity_request" where
  "create_root root_id root_name workspace_id =
     (let root_name = (if root_name = Some ''$ROOT'' then Some ''ROOT'' else root_name)
      in \<lparr>entityName = root_name, entityId = root_id, parentEntityId = None,
          ntt_description = root_name, workspaceId = workspace_id\<rparr>)"

definition create_entity_api ::
  "components option \<Rightarrow> entity_request \<Rightarrow> string \<Rightarrow> bool \<Rightarrow> world \<Rightarrow> unit res \<times> world"
where
  "create_entity_api comps ntt workspace_id check_active =
     bnd (client_create_entity ntt comps)
       (\<lambda>_. if check_active then wait_over (WaitOverGetEntity workspace_id (entityId ntt))
             else ret ())"

text \<open>The request dictionary \<^verbatim>\<open>ntt\<close> of \<^verbatim>\<open>create_iottwinmaker_entity\<close>.\<close>

definition ntt_of :: "entity_record \<Rightarrow> string \<Rightarrow> string \<Rightarrow> entity_request" where
  "ntt_of entity parent_id workspace_id =
     \<lparr>entityName = entity_name entity, entityId = entity_id entity,
      parentEntityId = Some parent_id,
      ntt_description =
        (if truthy (description entity) then description entity else entity_name entity),
      workspaceId = workspace_id\<rparr>"

text \<open>
  The recursive resolver. The first argument bounds the depth of the recursion: the
  source recurses without a bound, and a call that needs more depth than the budget
  gives is \<open>Diverge\<close>.
\<close>

fun create_iottwinmaker_entity ::
  "nat \<Rightarrow> entity_record list \<Rightarrow> entity_record \<Rightarrow> string \<Rightarrow> components option \<Rightarrow> bool
     \<Rightarrow> world \<Rightarrow> unit res \<times> world"
where
  "create_iottwinmaker_entity 0 input_entities entity workspace_id comps check_active w =
     (Diverge, w)"
| "create_iottwinmaker_entity (Suc n) input_entities entity workspace_id comps check_active w =
     bnd (entity_exists workspace_id (entity_id entity))
       (\<lambda>ex. if ex then ret ()
         else bnd (if truthy (component_type entity)
                   then bnd (populate_assets entity (component_type entity) workspace_id)
                          (\<lambda>c. ret (Some c))
                   else ret comps)
           (\<lambda>comps.
              bnd (case parent_entity_id entity of
                     Some parent_id \<Rightarrow>
                       bnd (entity_exists workspace_id parent_id)
                         (\<lambda>parent_exists.
                            if \<not> parent_exists
                            then (case get_parent_from_input input_entities parent_id of
                                    Some parent \<Rightarrow>
                                      bnd (create_iottwinmaker_entity n input_entities parent
                                             workspace_id comps True)
                                        (\<lambda>_. ret parent_id)
                                  | None \<Rightarrow>
                                      bnd (create_entity_api comps
                                             (create_root parent_id (parent_name entity) workspace_id)
                                             workspace_id True)
                                        (\<lambda>_. ret parent_id))
                            else ret parent_id)
                   | None \<Rightarrow> ret ''$ROOT'')
                (\<lambda>parent_id.
                   create_entity_api comps (ntt_of entity parent_id workspace_id)
                     workspace_id check_active))) w"

fun process_loop ::
  "nat \<Rightarrow> entity_record list \<Rightarrow> entity_record list \<Rightarrow> string \<Rightarrow> string option
     \<Rightarrow> world \<Rightarrow> unit res \<times> world"
where
  "process_loop n entities_all [] workspace_id comp_id w = (Return (), w)"
| "process_loop n entities_all (entity # rest) workspace_id comp_id w =
     bnd (populate_assets entity comp_id workspace_id)
       (\<lambda>comps. bnd (create_iottwinmaker_entity n entities_all entity workspace_id
                        (Some comps) False)
          (\<lambda>_. process_loop n entities_all rest workspace_id comp_id)) w"

definition process_records ::
  "nat \<Rightarrow> entity_record list \<Rightarrow> string \<Rightarrow> string option \<Rightarrow> world \<Rightarrow> unit res \<times> world"
where
  "process_records n j_data workspace_id comp_id =
     process_loop n j_data j_data workspace_id comp_id"

definition create_iottwinmaker_entities ::
  "nat \<Rightarrow> entity_record list \<Rightarrow> string \<Rightarrow> string option \<Rightarrow> string option
     \<Rightarrow> world \<Rightarrow> unit res \<times> world"
where
  "create_iottwinmaker_entities n j_data workspace_id comp_id iottwinmaker_role_arn =
     bnd (create_workspace workspace_id iottwinmaker_role_arn)
       (\<lambda>_. bnd (create_properties_component workspace_id comp_id)
          (\<lambda>_. process_records n j_data workspace_id comp_id))"

section \<open>Auxiliary notions for the statements\<close>

text \<open>The next remote call meets no fault.\<close>

definition healthy_next :: "world \<Rightarrow> bool" where
  "healthy_next w = (case faults w of Some e # _ \<Rightarrow> False | _ \<Rightarrow> True)"

text \<open>The world once a remote call has been recorded and has met its fault, if any.\<close>

definition after_call :: "api_call \<Rightarrow> world \<Rightarrow> world" where
  "after_call c w = w\<lparr>calls := calls w @ [c], faults := tl (faults w)\<rparr>"

text \<open>A record that has an id and possibly a parent id, and no other key.\<close>

definition bare :: "string \<Rightarrow> string option \<Rightarrow> entity_record" where
  "bare i p = \<lparr>entity_id = i, parent_entity_id = p, entity_name = None, parent_name = None,
     component_type = None, description = None, properties = None, template_parameters = None\<rparr>"

text \<open>The chain scenario: \<open>c\<close> under \<open>b\<close> under \<open>a\<close>, listed leaf first.\<close>

definition chain_input :: "entity_record list" where
  "chain_input = [bare ''c'' (Some ''b''), bare ''b'' (Some ''a''), bare ''a'' None]"

text \<open>
  A process that has just started (empty caches, no call issued) against a service
  that holds the workspace \<open>ws\<close> and nothing in it, and answers every call.
\<close>

definition fresh_world :: world where
  "fresh_world = \<lparr>created_component_types = {}, created_entities = {}, workspaces = [''ws''],
     component_types = [], entities = {}, faults = [], caller_role = ''role'', calls = []\<rparr>"

text \<open>The record of the unresolvable-parent scenario, with a component type of its own.\<close>

definition orphan_record :: entity_record where
  "orphan_record = (bare ''x'' (Some ''orphan''))
     \<lparr>parent_name := Some ''$ROOT'', component_type := Some ''ct''\<rparr>"

text \<open>The calls that read or change entities.\<close>

definition is_entity_call :: "api_call \<Rightarrow> bool" where
  "is_entity_call c = (case c of GetEntity _ _ \<Rightarrow> True | CreateEntity _ _ \<Rightarrow> True
     | WaitOverGetEntity _ _ \<Rightarrow> True | _ \<Rightarrow> False)"

text \<open>The calls issued between two worlds of one run.\<close>

definition new_calls :: "world \<Rightarrow> world \<Rightarrow> api_call list" where
  "new_calls w w' = drop (length (calls w)) (calls w')"

text \<open>
  The value of \<^verbatim>\<open>comps\<close> after line 172 of the source: the payload of the record
  when it names a component type, the payload handed in otherwise.
\<close>

definition own_comps :: "entity_record \<Rightarrow> components option \<Rightarrow> components option" where
  "own_comps e comps =
     (if truthy (component_type e) then Some (payload e (component_type e)) else comps)"


text \<open>Every cached entity id exists in the workspace of the run.\<close>

definition cache_sound :: "string \<Rightarrow> world \<Rightarrow> bool" where
  "cache_sound ws w = (\<forall>i \<in> created_entities w. (ws, i) \<in> entities w)"

text \<open>
  Nothing is lost from one world to a later one: the calls are extended, the caches and
  the remote service only gain members.
\<close>

definition grows :: "world \<Rightarrow> world \<Rightarrow> bool" where
  "grows w w' =
     ((\<exists>evs. calls w' = calls w @ evs)
      \<and> created_entities w \<subseteq> created_entities w'
      \<and> created_component_types w \<subseteq> created_component_types w'
      \<and> entities w \<subseteq> entities w'
      \<and> set (component_types w) \<subseteq> set (component_types w')
      \<and> set (workspaces w) \<subseteq> set (workspaces w'))"

text \<open>
  The two middle steps of \<^verbatim>\<open>create_iottwinmaker_entity\<close>, named so that lemmas can
  speak about them: building the payload (line 172) and resolving the parent
  (lines 174 to 184).
\<close>

definition build_comps ::
  "entity_record \<Rightarrow> string \<Rightarrow> components option \<Rightarrow> world \<Rightarrow> components option res \<times> world"
where
  "build_comps entity workspace_id comps =
     (if truthy (component_type entity)
      then bnd (populate_assets entity (component_type entity) workspace_id) (\<lambda>c. ret (Some c))
      else ret comps)"

definition resolve_parent ::
  "nat \<Rightarrow> entity_record list \<Rightarrow> entity_record \<Rightarrow> string \<Rightarrow> components option
     \<Rightarrow> world \<Rightarrow> string res \<times> world"
where
  "resolve_parent n input_entities entity workspace_id comps =
     (case parent_entity_id entity of
        Some parent_id \<Rightarrow>
          bnd (entity_exists workspace_id parent_id)
            (\<lambda>parent_exists.
               if \<not> parent_exists
               then (case get_parent_from_input input_entities parent_id of
                       Some parent \<Rightarrow>
                         bnd (create_iottwinmaker_entity n input_entities parent
                                workspace_id comps True)
                           (\<lambda>_. ret parent_id)
                     | None \<Rightarrow>
                         bnd (create_entity_api comps
                                (create_root parent_id (parent_name entity) workspace_id)
                                workspace_id True)
                           (\<lambda>_. ret parent_id))
               else ret parent_id)
      | None \<Rightarrow> ret ''$ROOT'')"

text \<open>
  An entity id that is cached, in a sound cache, stays cached from \<open>w\<close> to \<open>w'\<close>, and no
  \<open>getEntity\<close> call for it, check or poll, is issued in between.
\<close>

definition not_rechecked :: "string \<Rightarrow> string \<Rightarrow> world \<Rightarrow> world \<Rightarrow> bool" where
  "not_rechecked ws i w w' =
     (cache_sound ws w \<and> i \<in> created_entities w \<longrightarrow>
        cache_sound ws w' \<and> i \<in> created_entities w'
        \<and> (\<exists>evs. calls w' = calls w @ evs
              \<and> GetEntity ws i \<notin> set evs \<and> WaitOverGetEntity ws i \<notin> set evs))"

text \<open>
  From \<open>w\<close> to \<open>w'\<close> both caches only gain entries, and no \<open>getEntity\<close> call is
  issued for an entity id that \<open>w\<close> has cached.
\<close>

definition cache_respected :: "string \<Rightarrow> world \<Rightarrow> world \<Rightarrow> bool" where
  "cache_respected ws w w' =
     (created_entities w \<subseteq> created_entities w'
      \<and> created_component_types w \<subseteq> created_component_types w'
      \<and> (\<forall>i. cache_sound ws w \<and> i \<in> created_entities w \<longrightarrow>
            GetEntity ws i \<notin> set (new_calls w w')
            \<and> WaitOverGetEntity ws i \<notin> set (new_calls w w')))"

text \<open>
  A process that has the entity \<open>a\<close> and the component type \<open>ct\<close> in its caches; both
  exist remotely.
\<close>

definition cached_world :: world where
  "cached_world = fresh_world\<lparr>created_component_types := {''ct''}, created_entities := {''a''},
     component_types := [(''ws'', ''ct'')], entities := {(''ws'', ''a'')}\<rparr>"

text \<open>
  Pre- and postconditions: from a world that satisfies \<open>P\<close>, a call that returns \<open>x\<close>
  ends in a world that satisfies \<open>Q x\<close>, and a call that raises or runs out of recursion
  depth ends in a world that satisfies \<open>E\<close>.
\<close>

definition valid ::
  "(world \<Rightarrow> bool) \<Rightarrow> (world \<Rightarrow> 'a res \<times> world) \<Rightarrow> ('a \<Rightarrow> world \<Rightarrow> bool) \<Rightarrow> (world \<Rightarrow> bool) \<Rightarrow> bool"
where
  "valid P m Q E =
     (\<forall>w. P w \<longrightarrow> (case m w of (Return x, w') \<Rightarrow> Q x w' | (Raise e, w') \<Rightarrow> E w'
                      | (Diverge, w') \<Rightarrow> E w'))"

text \<open>
  No entity created since the call number \<open>k\<close> is in the cache.
\<close>

definition uncached_creations :: "string \<Rightarrow> nat \<Rightarrow> world \<Rightarrow> bool" where
  "uncached_creations ws k w =
     (cache_sound ws w \<and>
      (\<forall>req c. CreateEntity req c \<in> set (drop k (calls w)) \<longrightarrow> entityId req \<notin> created_entities w))"

text \<open>
  No entity creation call has been issued since the call number \<open>k\<close>.
\<close>

definition no_creations :: "string \<Rightarrow> nat \<Rightarrow> world \<Rightarrow> bool" where
  "no_creations ws k w =
     (cache_sound ws w \<and> (\<forall>req c. CreateEntity req c \<notin> set (drop k (calls w))))"

text \<open>
  Every id the entity cache gains from \<open>w\<close> to \<open>w'\<close> was the subject of a
  \<open>getEntity\<close> call in between, and exists remotely.
\<close>

definition filled_by_checks :: "string \<Rightarrow> world \<Rightarrow> world \<Rightarrow> bool" where
  "filled_by_checks ws w w' =
     (entities w \<subseteq> entities w'
      \<and> (\<exists>evs. calls w' = calls w @ evs
            \<and> created_entities w' - created_entities w
                \<subseteq> {i. GetEntity ws i \<in> set evs \<and> (ws, i) \<in> entities w'}))"



text \<open>
  A call that, from every world, returns or raises.
\<close>

definition halts :: "(world \<Rightarrow> 'a res \<times> world) \<Rightarrow> bool" where
  "halts m = (\<forall>w. fst (m w) \<noteq> Diverge)"

text \<open>
  The entities, with their workspace, that the creation calls of a list name.
\<close>

definition created_in :: "api_call list \<Rightarrow> (string \<times> string) set" where
  "created_in evs =
     set (concat (map (\<lambda>ev. case ev of CreateEntity req c \<Rightarrow> [(workspaceId req, entityId req)]
                               | _ \<Rightarrow> []) evs))"

text \<open>
  The parent a request names is the implicit root \<open>$ROOT\<close> or is in \<open>R\<close>; a request that
  names no parent (a synthetic root) asks for nothing.
\<close>

definition parent_known :: "(string \<times> string) set \<Rightarrow> entity_request \<Rightarrow> bool" where
  "parent_known R req =
     (case parentEntityId req of
        None \<Rightarrow> True
      | Some p \<Rightarrow> p = ''$ROOT'' \<or> (workspaceId req, p) \<in> R)"

text \<open>
  Every creation call of the list names a parent that is in \<open>R\<close> or is the subject of
  an earlier creation call of the list.
\<close>

fun parents_first :: "(string \<times> string) set \<Rightarrow> api_call list \<Rightarrow> bool" where
  "parents_first R [] = True"
| "parents_first R (ev # evs) =
     (case ev of
        CreateEntity req c \<Rightarrow>
          parent_known R req \<and> parents_first (insert (workspaceId req, entityId req) R) evs
      | _ \<Rightarrow> parents_first R evs)"

text \<open>
  The invariant of the ordering: the cache is sound, the calls issued since the call
  number \<open>k\<close> create parents first with respect to \<open>R0\<close>, and every entity that exists
  remotely is in \<open>R0\<close> or is the subject of one of these creation calls.
\<close>

definition ordered :: "string \<Rightarrow> (string \<times> string) set \<Rightarrow> nat \<Rightarrow> world \<Rightarrow> bool" where
  "ordered ws R0 k w =
     (cache_sound ws w \<and> k \<le> length (calls w)
      \<and> parents_first R0 (drop k (calls w))
      \<and> entities w \<subseteq> R0 \<union> created_in (drop k (calls w)))"

text \<open>
  The payload that the loop over the records builds for a record of the chain when the
  job names no component type.
\<close>

definition chain_comps :: "components option" where
  "chain_comps = Some \<lparr>componentTypeId = None, comp_properties = []\<rparr>"

text \<open>
  The calls that only read the remote state.
\<close>

definition is_read_call :: "api_call \<Rightarrow> bool" where
  "is_read_call c = (case c of ListWorkspaces \<Rightarrow> True | ListComponentTypes _ \<Rightarrow> True
     | GetEntity _ _ \<Rightarrow> True | _ \<Rightarrow> False)"

text \<open>
  The remote state holds all that an import of the input set ensures: the workspace, the
  component type of the job and the entity of every record.
\<close>

definition settled :: "string \<Rightarrow> string option \<Rightarrow> entity_record list \<Rightarrow> world \<Rightarrow> bool" where
  "settled ws comp_id inp w =
     (ws \<in> set (workspaces w)
      \<and> (\<forall>c. comp_id = Some c \<and> c \<noteq> [] \<longrightarrow> (ws, c) \<in> set (component_types w))
      \<and> (\<forall>e\<in>set inp. (ws, entity_id e) \<in> entities w))"

text \<open>
  The invariant of a run with nothing left to create: the remote state is settled and is
  that of \<open>v\<close>, the service answers every call, and every call issued since the call
  number \<open>k\<close> is a read.
\<close>

definition quiet ::
  "string \<Rightarrow> string option \<Rightarrow> entity_record list \<Rightarrow> world \<Rightarrow> nat \<Rightarrow> world \<Rightarrow> bool"
where
  "quiet ws comp_id inp v k w =
     (settled ws comp_id inp w \<and> faults w = []
      \<and> entities w = entities v \<and> workspaces w = workspaces v
      \<and> component_types w = component_types v
      \<and> k \<le> length (calls w) \<and> (\<forall>ev\<in>set (drop k (calls w)). is_read_call ev))"

section \<open>The remote calls and the existence check\<close>

lemma after_call_simps [simp]:
  "calls (after_call c w) = calls w @ [c]"
  "faults (after_call c w) = tl (faults w)"
  "entities (after_call c w) = entities w"
  "created_entities (after_call c w) = created_entities w"
  "created_component_types (after_call c w) = created_component_types w"
  "component_types (after_call c w) = component_types w"
  "workspaces (after_call c w) = workspaces w"
  "caller_role (after_call c w) = caller_role w"
  by (simp_all add: after_call_def)

lemma remote_call_eq:
  "remote_call c w =
     ((case faults w of Some e # _ \<Rightarrow> Raise e | _ \<Rightarrow> Return ()), after_call c w)"
  by (simp add: remote_call_def after_call_def Let_def split: list.splits option.splits)

lemma remote_call_Return:
  "remote_call c w = (Return x, w') \<longleftrightarrow> healthy_next w \<and> w' = after_call c w"
  by (auto simp add: remote_call_eq healthy_next_def split: list.splits option.splits)

lemma bnd_Return:
  "bnd m f w = (Return y, w') \<longleftrightarrow> (\<exists>x w1. m w = (Return x, w1) \<and> f x w1 = (Return y, w'))"
  by (auto simp add: bnd_def split: prod.splits res.splits)

lemma entity_exists_eq:
  "entity_exists ws eid w =
     (if eid \<in> created_entities w then (Return True, w)
      else if healthy_next w \<and> (ws, eid) \<in> entities w
        then (Return True,
              (after_call (GetEntity ws eid) w)\<lparr>created_entities := insert eid (created_entities w)\<rparr>)
        else (Return False, after_call (GetEntity ws eid) w))"
  by (simp add: entity_exists_def client_get_entity_def bnd_def remote_call_eq healthy_next_def
      split: list.splits option.splits)

lemma client_create_entity_Return:
  "client_create_entity ntt comps w = (Return x, w') \<longleftrightarrow>
     healthy_next w \<and> (workspaceId ntt, entityId ntt) \<notin> entities w \<and>
     w' = (after_call (CreateEntity ntt comps) w)
            \<lparr>entities := insert (workspaceId ntt, entityId ntt) (entities w)\<rparr>"
  by (auto simp add: client_create_entity_def bnd_Return remote_call_Return)

lemma create_entity_api_Return:
  "create_entity_api comps ntt ws chk w = (Return x, w') \<longleftrightarrow>
     healthy_next w \<and> (workspaceId ntt, entityId ntt) \<notin> entities w \<and>
     (let w1 = (after_call (CreateEntity ntt comps) w)
                 \<lparr>entities := insert (workspaceId ntt, entityId ntt) (entities w)\<rparr>
      in if chk then healthy_next w1 \<and> w' = after_call (WaitOverGetEntity ws (entityId ntt)) w1
         else w' = w1)"
  by (auto simp add: create_entity_api_def bnd_Return client_create_entity_Return wait_over_def
       remote_call_Return ret_def Let_def)

section \<open>Frames, monotonicity and the steps of the resolver\<close>

lemma cpc_frame:
  assumes "create_properties_component ws c w = (r, w')"
  shows "entities w' = entities w \<and> created_entities w' = created_entities w
     \<and> (\<exists>evs. calls w' = calls w @ evs \<and> (\<forall>ev\<in>set evs. \<not> is_entity_call ev))
     \<and> created_component_types w \<subseteq> created_component_types w'
     \<and> set (component_types w) \<subseteq> set (component_types w')
     \<and> workspaces w' = workspaces w \<and> r \<noteq> Diverge"
  using assms
  by (auto simp add: create_properties_component_def bnd_def client_list_component_types_def
      client_create_component_type_def wait_over_def remote_call_eq is_entity_call_def
      split: option.splits if_splits list.splits)

lemma populate_assets_Return:
  assumes "populate_assets e c ws w = (Return x, w')"
  shows "x = payload e c \<and> entities w' = entities w \<and> created_entities w' = created_entities w
     \<and> (\<exists>evs. calls w' = calls w @ evs \<and> (\<forall>ev\<in>set evs. \<not> is_entity_call ev))"
  using assms cpc_frame [of ws c w]
  by (auto simp add: populate_assets_def bnd_Return ret_def)

lemma bnd_step: "m w = (Return x, w1) \<Longrightarrow> bnd m f w = f x w1"
  by (simp add: bnd_def)

lemma bnd_ReturnE:
  assumes "bnd m f w = (Return y, w')"
  obtains x w1 where "m w = (Return x, w1)" and "f x w1 = (Return y, w')"
  using assms by (auto simp add: bnd_Return)

lemma prep_Return:
  assumes "(if truthy (component_type e)
            then bnd (populate_assets e (component_type e) ws) (\<lambda>c. ret (Some c))
            else ret comps) w = (Return c, w2)"
  shows "c = own_comps e comps \<and> entities w2 = entities w
     \<and> created_entities w2 = created_entities w
     \<and> (\<exists>evs. calls w2 = calls w @ evs \<and> (\<forall>ev\<in>set evs. \<not> is_entity_call ev))"
proof (cases "truthy (component_type e)")
  case True
  with assms obtain x where "populate_assets e (component_type e) ws w = (Return x, w2)"
    and "c = Some x"
    by (auto simp add: bnd_Return ret_def)
  with True populate_assets_Return [of e "component_type e" ws w x w2] show ?thesis
    by (simp add: own_comps_def)
next
  case False
  with assms show ?thesis
    by (simp add: ret_def own_comps_def)
qed

lemma missing_parent_calls:
  assumes par: "parent_entity_id e = Some p" and inp: "get_parent_from_input inp p = None"
    and e1: "entity_id e \<notin> created_entities w" and e2: "(ws, entity_id e) \<notin> entities w"
    and p1: "p \<notin> created_entities w" and p2: "(ws, p) \<notin> entities w"
    and run: "create_iottwinmaker_entity (Suc n) inp e ws comps chk w = (Return (), w')"
  shows "filter is_entity_call (new_calls w w') =
     [GetEntity ws (entity_id e), GetEntity ws p,
      CreateEntity (create_root p (parent_name e) ws) (own_comps e comps), WaitOverGetEntity ws p,
      CreateEntity (ntt_of e p ws) (own_comps e comps)]
      @ (if chk then [WaitOverGetEntity ws (entity_id e)] else [])"
proof -
  let ?w1 = "after_call (GetEntity ws (entity_id e)) w"
  have s1: "entity_exists ws (entity_id e) w = (Return False, ?w1)"
    using e1 e2 by (simp add: entity_exists_eq)
  from run obtain c w2 where
    prep: "(if truthy (component_type e)
            then bnd (populate_assets e (component_type e) ws) (\<lambda>c. ret (Some c))
            else ret comps) ?w1 = (Return c, w2)"
    and rest: "bnd (bnd (entity_exists ws p)
             (\<lambda>parent_exists. if \<not> parent_exists
                then bnd (create_entity_api c (create_root p (parent_name e) ws) ws True) (\<lambda>_. ret p)
                else ret p))
             (\<lambda>parent_id. create_entity_api c (ntt_of e parent_id ws) ws chk) w2 = (Return (), w')"
    by (simp add: bnd_step [of "entity_exists ws (entity_id e)" w, OF s1] par inp cong: if_cong)
      (erule bnd_ReturnE)
  from prep_Return [OF prep] obtain evs where
    c: "c = own_comps e comps" and ent: "entities w2 = entities w"
    and cache: "created_entities w2 = created_entities w"
    and evs: "calls w2 = calls w @ GetEntity ws (entity_id e) # evs"
      "\<forall>ev\<in>set evs. \<not> is_entity_call ev"
    by auto
  let ?w3 = "after_call (GetEntity ws p) w2"
  have s3: "entity_exists ws p w2 = (Return False, ?w3)"
    using p1 p2 ent cache by (simp add: entity_exists_eq)
  from rest have
    "calls w' = calls w2 @ [GetEntity ws p,
      CreateEntity (create_root p (parent_name e) ws) c, WaitOverGetEntity ws p,
      CreateEntity (ntt_of e p ws) c] @ (if chk then [WaitOverGetEntity ws (entity_id e)] else [])"
    by (auto simp add: bnd_step [of "entity_exists ws p" w2, OF s3] bnd_Return ret_def create_entity_api_Return Let_def
        ntt_of_def create_root_def split: if_splits)
  with evs c show ?thesis
    by (simp add: new_calls_def is_entity_call_def)
qed

lemma grows_refl [simp]: "grows w w"
  by (simp add: grows_def)

lemma grows_trans: "grows a b \<Longrightarrow> grows b c \<Longrightarrow> grows a c"
  by (auto simp add: grows_def)

lemma bnd_rel:
  assumes trans: "\<And>a b c. R a b \<Longrightarrow> R b c \<Longrightarrow> R a c"
    and m: "\<And>w. R w (snd (m w))"
    and f: "\<And>x w. R w (snd (f x w))"
  shows "R w (snd (bnd m f w))"
proof (cases "m w")
  case (Pair r w1)
  with m [of w] have 1: "R w w1" by simp
  show ?thesis
  proof (cases r)
    case (Return x)
    with Pair have "bnd m f w = f x w1" by (simp add: bnd_def)
    with trans [OF 1 f [of w1 x]] show ?thesis by simp
  next
    case (Raise e)
    with Pair 1 show ?thesis by (simp add: bnd_def)
  next
    case Diverge
    with Pair 1 show ?thesis by (simp add: bnd_def)
  qed
qed

lemmas bnd_grows = bnd_rel [of grows, OF grows_trans]

lemma ret_grows [simp]: "grows w (snd (ret x w))"
  by (simp add: ret_def)

lemma after_call_grows [simp]: "grows w (after_call c w)"
  by (simp add: grows_def)

lemma remote_call_grows [simp]: "grows w (snd (remote_call c w))"
  by (simp add: remote_call_eq)

lemma entity_exists_grows [simp]: "grows w (snd (entity_exists ws eid w))"
  by (auto simp add: entity_exists_eq grows_def)

lemma create_properties_component_grows [simp]:
  "grows w (snd (create_properties_component ws c w))"
  using cpc_frame [of ws c w] by (cases "create_properties_component ws c w") (auto simp add: grows_def)

lemma populate_assets_grows [simp]: "grows w (snd (populate_assets e c ws w))"
  unfolding populate_assets_def by (rule bnd_grows) simp_all

lemma client_create_entity_grows [simp]: "grows w (snd (client_create_entity ntt comps w))"
  by (auto simp add: client_create_entity_def bnd_def remote_call_eq grows_def
      split: list.splits option.splits)

lemma create_entity_api_grows [simp]: "grows w (snd (create_entity_api comps ntt ws chk w))"
  unfolding create_entity_api_def by (rule bnd_grows) (simp_all add: wait_over_def)

lemma create_iottwinmaker_entity_grows:
  "grows w (snd (create_iottwinmaker_entity n inp e ws comps chk w))"
proof (induction n arbitrary: e comps chk w)
  case 0
  show ?case by simp
next
  case (Suc n)
  show ?case
    unfolding create_iottwinmaker_entity.simps
    by (intro bnd_grows) (auto intro!: bnd_grows Suc.IH split: option.splits)
qed

lemma resolver_unfold:
  "create_iottwinmaker_entity (Suc n) inp e ws comps chk =
     bnd (entity_exists ws (entity_id e))
       (\<lambda>ex. if ex then ret ()
         else bnd (build_comps e ws comps)
           (\<lambda>comps. bnd (resolve_parent n inp e ws comps)
              (\<lambda>parent_id. create_entity_api comps (ntt_of e parent_id ws) ws chk)))"
  by (rule ext) (simp only: create_iottwinmaker_entity.simps build_comps_def resolve_parent_def)

lemma build_comps_Return:
  assumes "build_comps e ws comps w = (Return c, w2)"
  shows "c = own_comps e comps \<and> entities w2 = entities w
     \<and> created_entities w2 = created_entities w
     \<and> (\<exists>evs. calls w2 = calls w @ evs \<and> (\<forall>ev\<in>set evs. \<not> is_entity_call ev))"
  using assms prep_Return [of e ws comps w c w2] by (simp add: build_comps_def)





lemma get_parent_from_input_Some:
  "get_parent_from_input inp p = Some e' \<Longrightarrow> e' \<in> set inp \<and> entity_id e' = p"
  by (induction inp) (auto split: if_splits)


lemma create_root_simps [simp]:
  "entityId (create_root p nm ws) = p"
  "workspaceId (create_root p nm ws) = ws"
  "parentEntityId (create_root p nm ws) = None"
  by (simp_all add: create_root_def Let_def)

lemma ntt_of_simps [simp]:
  "entityId (ntt_of e pid ws) = entity_id e"
  "workspaceId (ntt_of e pid ws) = ws"
  "parentEntityId (ntt_of e pid ws) = Some pid"
  by (simp_all add: ntt_of_def)

lemma listed_component_type [simp]:
  "c \<in> snd ` {x \<in> set xs. fst x = ws} \<longleftrightarrow> (ws, c) \<in> set xs"
  by force

declare create_iottwinmaker_entity.simps [simp del]

lemma create_properties_component_healthy:
  assumes "faults w = []"
  shows "fst (create_properties_component ws c w) = Return ()
         \<and> faults (snd (create_properties_component ws c w)) = []"
  using assms
  by (auto simp add: create_properties_component_def bnd_def client_list_component_types_def
      client_create_component_type_def wait_over_def remote_call_eq
      split: option.splits)

lemma build_comps_healthy:
  assumes "faults w = []"
  shows "fst (build_comps e ws comps w) = Return (own_comps e comps)
         \<and> faults (snd (build_comps e ws comps w)) = []"
  using create_properties_component_healthy [OF assms, of ws "component_type e"]
  by (cases "create_properties_component ws (component_type e) w")
    (simp add: build_comps_def populate_assets_def bnd_def ret_def own_comps_def assms)

lemma get_parent_from_input_None:
  "get_parent_from_input inp p = None \<longleftrightarrow> p \<notin> entity_id ` set inp"
  by (induction inp) auto

lemma missing_parent_returns:
  assumes par: "parent_entity_id e = Some p" and inp: "get_parent_from_input inp p = None"
    and e1: "entity_id e \<notin> created_entities w" and e2: "(ws, entity_id e) \<notin> entities w"
    and p1: "p \<notin> created_entities w" and p2: "(ws, p) \<notin> entities w"
    and ne: "p \<noteq> entity_id e" and healthy: "faults w = []"
  shows "fst (create_iottwinmaker_entity (Suc n) inp e ws comps chk w) = Return ()"
proof -
  let ?w1 = "after_call (GetEntity ws (entity_id e)) w"
  have s1: "entity_exists ws (entity_id e) w = (Return False, ?w1)"
    using e1 e2 by (simp add: entity_exists_eq)
  obtain w2 where prep: "build_comps e ws comps ?w1 = (Return (own_comps e comps), w2)"
    and h2: "faults w2 = []"
    using build_comps_healthy [of ?w1 e ws comps] healthy
    by (cases "build_comps e ws comps ?w1") simp
  from build_comps_Return [OF prep] have
    ent: "entities w2 = entities w" and cache: "created_entities w2 = created_entities w"
    by auto
  have s3: "entity_exists ws p w2 = (Return False, after_call (GetEntity ws p) w2)"
    using p1 p2 ent cache by (simp add: entity_exists_eq)
  show ?thesis
    using h2 ent p2 e2 ne
    by (simp add: resolver_unfold bnd_def s1 prep resolve_parent_def par inp s3
        create_entity_api_def client_create_entity_def wait_over_def remote_call_eq ret_def)
qed

lemma pair_fst_snd: "fst x = a \<Longrightarrow> x = (a, snd x)"
  by (cases x) simp

lemma chain_run:
  assumes "faults w = []"
    and "(ws, ''a'') \<notin> entities w" and "(ws, ''b'') \<notin> entities w" and "(ws, ''c'') \<notin> entities w"
    and "''a'' \<notin> created_entities w" and "''b'' \<notin> created_entities w"
    and "''c'' \<notin> created_entities w"
  shows "fst (create_iottwinmaker_entity (Suc (Suc (Suc n))) chain_input
                (bare ''c'' (Some ''b'')) ws comps False w) = Return ()
    \<and> calls (snd (create_iottwinmaker_entity (Suc (Suc (Suc n))) chain_input
                (bare ''c'' (Some ''b'')) ws comps False w))
       = calls w @
         [GetEntity ws ''c'', GetEntity ws ''b'', GetEntity ws ''b'', GetEntity ws ''a'',
          GetEntity ws ''a'',
          CreateEntity (ntt_of (bare ''a'' None) ''$ROOT'' ws) comps, WaitOverGetEntity ws ''a'',
          CreateEntity (ntt_of (bare ''b'' (Some ''a'')) ''a'' ws) comps, WaitOverGetEntity ws ''b'',
          CreateEntity (ntt_of (bare ''c'' (Some ''b'')) ''b'' ws) comps]"
  using assms
  by (simp add: create_iottwinmaker_entity.simps chain_input_def bare_def bnd_def ret_def
      entity_exists_eq healthy_next_def
      create_entity_api_def client_create_entity_def wait_over_def remote_call_eq truthy_def
      ntt_of_def)

section \<open>A cached id is not checked again\<close>

lemma not_rechecked_refl [simp]: "not_rechecked ws i w w"
  by (simp add: not_rechecked_def)

lemma not_rechecked_trans: "not_rechecked ws i a b \<Longrightarrow> not_rechecked ws i b c \<Longrightarrow> not_rechecked ws i a c"
  by (auto simp add: not_rechecked_def)

lemmas bnd_not_rechecked = bnd_rel [of "not_rechecked ws i", OF not_rechecked_trans] for ws i

lemma ret_not_rechecked [simp]: "not_rechecked ws i w (snd (ret x w))"
  by (simp add: ret_def)

lemma entity_exists_not_rechecked [simp]: "not_rechecked ws i w (snd (entity_exists ws eid w))"
  by (auto simp add: entity_exists_eq not_rechecked_def cache_sound_def)

lemma no_entity_calls:
  assumes "\<forall>ev\<in>set evs. \<not> is_entity_call ev"
  shows "GetEntity ws i \<notin> set evs" and "WaitOverGetEntity ws i \<notin> set evs"
    and "CreateEntity ntt c \<notin> set evs"
  using assms by (auto simp add: is_entity_call_def)

lemma create_properties_component_not_rechecked [simp]:
  "not_rechecked ws i w (snd (create_properties_component ws' c w))"
  using cpc_frame [of ws' c w]
  by (cases "create_properties_component ws' c w")
    (auto simp add: not_rechecked_def cache_sound_def dest: no_entity_calls)

lemma populate_assets_not_rechecked [simp]: "not_rechecked ws i w (snd (populate_assets e c ws' w))"
  unfolding populate_assets_def by (rule bnd_not_rechecked) simp_all

lemma create_entity_api_not_rechecked [simp]:
  "workspaceId ntt = ws \<Longrightarrow> not_rechecked ws i w (snd (create_entity_api comps ntt ws chk w))"
  by (auto simp add: create_entity_api_def client_create_entity_def wait_over_def bnd_def
      remote_call_eq ret_def not_rechecked_def cache_sound_def split: list.splits option.splits)

lemma create_iottwinmaker_entity_not_rechecked:
  "not_rechecked ws i w (snd (create_iottwinmaker_entity n inp e ws comps chk w))"
proof (induction n arbitrary: e comps chk w)
  case 0
  show ?case by (simp add: create_iottwinmaker_entity.simps)
next
  case (Suc n)
  show ?case
    unfolding create_iottwinmaker_entity.simps
    by (intro bnd_not_rechecked) (auto intro!: bnd_not_rechecked Suc.IH split: option.splits)
qed

lemma process_loop_not_rechecked:
  "not_rechecked ws i w (snd (process_loop n inp rest ws comp_id w))"
proof (induction rest arbitrary: w)
  case Nil
  show ?case by simp
next
  case (Cons e rest)
  show ?case
    unfolding process_loop.simps
    by (intro bnd_not_rechecked) (auto intro!: bnd_not_rechecked create_iottwinmaker_entity_not_rechecked Cons.IH)
qed

lemma process_loop_grows:
  "grows w (snd (process_loop n inp rest ws comp_id w))"
proof (induction rest arbitrary: w)
  case Nil
  show ?case by simp
next
  case (Cons e rest)
  show ?case
    unfolding process_loop.simps
    by (intro bnd_grows) (auto intro!: bnd_grows create_iottwinmaker_entity_grows Cons.IH)
qed

lemma create_workspace_frame:
  assumes "create_workspace ws role w = (r, w')"
  shows "entities w' = entities w \<and> created_entities w' = created_entities w
     \<and> created_component_types w' = created_component_types w
     \<and> component_types w' = component_types w
     \<and> (\<exists>evs. calls w' = calls w @ evs \<and> (\<forall>ev\<in>set evs. \<not> is_entity_call ev))
     \<and> set (workspaces w) \<subseteq> set (workspaces w') \<and> r \<noteq> Diverge"
  using assms
  by (auto simp add: create_workspace_def bnd_def client_list_workspaces_def
      client_create_workspace_def get_role_from_identity_def remote_call_eq is_entity_call_def
      ret_def Let_def
      split: option.splits if_splits list.splits)

lemma create_workspace_grows [simp]: "grows w (snd (create_workspace ws role w))"
  using create_workspace_frame [of ws role w]
  by (cases "create_workspace ws role w") (auto simp add: grows_def)

lemma create_workspace_not_rechecked [simp]: "not_rechecked ws i w (snd (create_workspace ws' role w))"
  using create_workspace_frame [of ws' role w]
  by (cases "create_workspace ws' role w")
    (auto simp add: not_rechecked_def cache_sound_def dest: no_entity_calls)

lemma create_iottwinmaker_entities_grows:
  "grows w (snd (create_iottwinmaker_entities n inp ws comp_id role w))"
  unfolding create_iottwinmaker_entities_def process_records_def
  by (intro bnd_grows) (simp_all add: process_loop_grows)

lemma create_iottwinmaker_entities_not_rechecked:
  "not_rechecked ws i w (snd (create_iottwinmaker_entities n inp ws comp_id role w))"
  unfolding create_iottwinmaker_entities_def process_records_def
  by (intro bnd_not_rechecked) (simp_all add: process_loop_not_rechecked)

lemma cache_respectedI:
  assumes "grows w w'" and "\<And>i. not_rechecked ws i w w'"
  shows "cache_respected ws w w'"
  using assms by (auto simp add: cache_respected_def grows_def not_rechecked_def new_calls_def)

section \<open>Pre- and postconditions\<close>

lemma validI:
  assumes "\<And>w x w'. P w \<Longrightarrow> m w = (Return x, w') \<Longrightarrow> Q x w'"
    and "\<And>w e w'. P w \<Longrightarrow> m w = (Raise e, w') \<Longrightarrow> E w'"
    and "\<And>w w'. P w \<Longrightarrow> m w = (Diverge, w') \<Longrightarrow> E w'"
  shows "valid P m Q E"
  using assms by (auto simp add: valid_def split: prod.splits res.splits)

lemma valid_Return: "valid P m Q E \<Longrightarrow> P w \<Longrightarrow> m w = (Return x, w') \<Longrightarrow> Q x w'"
  by (auto simp add: valid_def)

lemma valid_other: "valid P m Q E \<Longrightarrow> P w \<Longrightarrow> m w = (r, w') \<Longrightarrow> (\<And>x. r \<noteq> Return x) \<Longrightarrow> E w'"
  by (cases r) (auto simp add: valid_def)

lemma valid_bnd:
  assumes m: "valid P m Q E" and f: "\<And>x. valid (Q x) (f x) R E"
  shows "valid P (bnd m f) R E"
  unfolding valid_def
proof (intro allI impI)
  fix w assume P: "P w"
  obtain r w1 where mw: "m w = (r, w1)" by (cases "m w")
  show "case bnd m f w of (Return x, w') \<Rightarrow> R x w' | (Raise e, w') \<Rightarrow> E w' | (Diverge, w') \<Rightarrow> E w'"
  proof (cases r)
    case (Return x)
    with mw P m have "Q x w1" by (auto simp add: valid_def)
    with f [of x] have "case f x w1 of (Return y, w') \<Rightarrow> R y w' | (Raise e, w') \<Rightarrow> E w'
        | (Diverge, w') \<Rightarrow> E w'"
      by (simp add: valid_def)
    with Return mw show ?thesis by (simp add: bnd_def)
  next
    case (Raise e)
    with mw P m show ?thesis by (auto simp add: valid_def bnd_def)
  next
    case Diverge
    with mw P m show ?thesis by (auto simp add: valid_def bnd_def)
  qed
qed

lemma valid_ret: "(\<And>w. P w \<Longrightarrow> Q x w) \<Longrightarrow> valid P (ret x) Q E"
  by (simp add: valid_def ret_def)

lemma valid_conseq:
  assumes "valid P' m Q' E'"
    and "\<And>w. P w \<Longrightarrow> P' w" and "\<And>x w. Q' x w \<Longrightarrow> Q x w" and "\<And>w. E' w \<Longrightarrow> E w"
  shows "valid P m Q E"
proof (rule validI)
  fix w x w' assume "P w" "m w = (Return x, w')"
  with assms(2,3) valid_Return [OF assms(1)] show "Q x w'" by blast
next
  fix w e w' assume "P w" "m w = (Raise e, w')"
  with assms(2,4) valid_other [OF assms(1), of w "Raise e" w'] show "E w'" by auto
next
  fix w w' assume "P w" "m w = (Diverge, w')"
  with assms(2,4) valid_other [OF assms(1), of w Diverge w'] show "E w'" by auto
qed

lemma valid_pre: "valid P' m Q E \<Longrightarrow> (\<And>w. P w \<Longrightarrow> P' w) \<Longrightarrow> valid P m Q E"
  by (erule valid_conseq)

lemma valid_post: "valid P m Q' E \<Longrightarrow> (\<And>x w. Q' x w \<Longrightarrow> Q x w) \<Longrightarrow> valid P m Q E"
  by (erule valid_conseq)

lemma valid_assume: "(\<And>w. P w \<Longrightarrow> valid P m Q E) \<Longrightarrow> valid P m Q E"
  by (auto simp add: valid_def)

lemma no_creations_uncached: "no_creations ws k w \<Longrightarrow> uncached_creations ws k w"
  by (simp add: no_creations_def uncached_creations_def)

lemma in_set_drop_appendD:
  "x \<in> set (drop k (xs @ ys)) \<Longrightarrow> x \<in> set (drop k xs) \<or> x \<in> set ys"
  by (auto dest: in_set_dropD)

lemma entity_exists_no_creations:
  "valid (no_creations ws k) (entity_exists ws i) (\<lambda>_. no_creations ws k) E"
  by (rule validI) (auto simp add: entity_exists_eq no_creations_def cache_sound_def
      simp del: drop_append split: if_splits dest!: in_set_drop_appendD)

lemma build_comps_no_creations:
  "valid (no_creations ws k) (build_comps e ws comps) (\<lambda>_. no_creations ws k) (\<lambda>_. True)"
proof (rule validI)
  fix w c w' assume "no_creations ws k w" "build_comps e ws comps w = (Return c, w')"
  with build_comps_Return [of e ws comps w c w'] show "no_creations ws k w'"
    by (auto simp add: no_creations_def cache_sound_def simp del: drop_append
        dest!: in_set_drop_appendD dest: no_entity_calls)
qed simp_all

lemma create_entity_api_uncached:
  assumes "workspaceId ntt = ws"
  shows "valid (uncached_creations ws k) (create_entity_api comps ntt ws chk)
           (\<lambda>_. uncached_creations ws k) (\<lambda>_. True)"
proof (rule validI)
  fix w x w' assume "uncached_creations ws k w" "create_entity_api comps ntt ws chk w = (Return x, w')"
  with assms show "uncached_creations ws k w'"
    by (auto simp add: create_entity_api_Return Let_def uncached_creations_def cache_sound_def
        simp del: drop_append split: if_splits dest!: in_set_drop_appendD)
qed simp_all

lemma create_iottwinmaker_entity_uncached:
  "valid (no_creations ws k) (create_iottwinmaker_entity n inp e ws comps chk)
     (\<lambda>_. uncached_creations ws k) (\<lambda>_. True)"
proof (induction n arbitrary: e comps chk)
  case 0
  show ?case by (rule validI) (simp_all add: create_iottwinmaker_entity.simps)
next
  case (Suc n)
  have parent: "valid (no_creations ws k) (resolve_parent n inp e ws c)
                  (\<lambda>_. uncached_creations ws k) (\<lambda>_. True)" for c
    unfolding resolve_parent_def
    by (auto split: option.splits
        intro!: valid_bnd [OF entity_exists_no_creations] valid_ret valid_bnd [OF Suc.IH]
          valid_bnd [OF valid_pre [OF create_entity_api_uncached]]
        intro: no_creations_uncached)
  show ?case
    unfolding resolver_unfold
    by (auto intro!: valid_bnd [OF entity_exists_no_creations] valid_ret
          valid_bnd [OF build_comps_no_creations] valid_bnd [OF parent]
          create_entity_api_uncached
        intro: no_creations_uncached)
qed

section \<open>What the cache gains\<close>

lemma filled_by_checks_refl [simp]: "filled_by_checks ws w w"
  by (simp add: filled_by_checks_def)

lemma filled_by_checks_trans:
  "filled_by_checks ws a b \<Longrightarrow> filled_by_checks ws b c \<Longrightarrow> filled_by_checks ws a c"
  by (fastforce simp add: filled_by_checks_def)

lemmas bnd_filled = bnd_rel [of "filled_by_checks ws", OF filled_by_checks_trans] for ws

lemma ret_filled [simp]: "filled_by_checks ws w (snd (ret x w))"
  by (simp add: ret_def)

lemma entity_exists_filled [simp]: "filled_by_checks ws w (snd (entity_exists ws i w))"
  by (auto simp add: entity_exists_eq filled_by_checks_def)

lemma create_entity_api_cache:
  "created_entities (snd (create_entity_api comps ntt ws chk w)) = created_entities w"
  by (auto simp add: create_entity_api_def client_create_entity_def wait_over_def bnd_def
      remote_call_eq ret_def split: list.splits option.splits)

lemma populate_assets_filled [simp]: "filled_by_checks ws w (snd (populate_assets e c ws' w))"
  using cpc_frame [of ws' c w]
  by (cases "create_properties_component ws' c w")
    (auto simp add: populate_assets_def bnd_def ret_def filled_by_checks_def split: res.splits)

lemma create_entity_api_filled [simp]:
  "filled_by_checks ws w (snd (create_entity_api comps ntt ws' chk w))"
  using create_entity_api_grows [of w comps ntt ws' chk] create_entity_api_cache [of comps ntt ws' chk w]
  by (auto simp add: filled_by_checks_def grows_def)

lemma create_iottwinmaker_entity_filled:
  "filled_by_checks ws w (snd (create_iottwinmaker_entity n inp e ws comps chk w))"
proof (induction n arbitrary: e comps chk w)
  case 0
  show ?case by (simp add: create_iottwinmaker_entity.simps)
next
  case (Suc n)
  show ?case
    unfolding create_iottwinmaker_entity.simps
    by (intro bnd_filled) (auto intro!: bnd_filled Suc.IH split: option.splits)
qed

lemma entity_exists_cache:
  "created_entities (snd (entity_exists ws i v)) =
     (if i \<notin> created_entities v \<and> fst (client_get_entity ws i v) = Return ()
      then insert i (created_entities v) else created_entities v)"
  by (auto simp add: entity_exists_def client_get_entity_def bnd_def remote_call_eq
      split: list.splits option.splits)

section \<open>Halting and recursion depth\<close>

lemma halts_bnd: "halts m \<Longrightarrow> (\<And>x. halts (f x)) \<Longrightarrow> halts (bnd m f)"
  by (simp add: halts_def bnd_def split: prod.splits res.splits) (metis fst_conv)

lemma halts_ret [simp]: "halts (ret x)"
  by (simp add: halts_def ret_def)

lemma halts_remote_call [simp]: "halts (remote_call c)"
  by (simp add: halts_def remote_call_eq split: list.splits option.splits)

lemma halts_entity_exists [simp]: "halts (entity_exists ws i)"
  by (simp add: halts_def entity_exists_eq)

lemma halts_create_properties_component [simp]: "halts (create_properties_component ws c)"
  unfolding halts_def
proof
  fix w show "fst (create_properties_component ws c w) \<noteq> Diverge"
    using cpc_frame [of ws c w] by (cases "create_properties_component ws c w") simp
qed

lemma halts_populate_assets [simp]: "halts (populate_assets e c ws)"
  unfolding populate_assets_def by (intro halts_bnd) simp_all

lemma halts_build_comps [simp]: "halts (build_comps e ws comps)"
  unfolding build_comps_def by (auto intro!: halts_bnd)

lemma halts_create_entity_api [simp]: "halts (create_entity_api comps ntt ws chk)"
  unfolding create_entity_api_def client_create_entity_def wait_over_def
  by (intro halts_bnd)
    (auto simp add: halts_def remote_call_eq ret_def split: list.splits option.splits)



lemma bnd_cong_Return:
  assumes "\<And>x w1. m w = (Return x, w1) \<Longrightarrow> f x w1 = g x w1"
  shows "bnd m f w = bnd m g w"
  using assms by (auto simp add: bnd_def split: prod.splits res.splits)







text \<open>
  The budget is needed: the resolution of a record that names itself as its parent, and
  does not exist remotely, runs out of every recursion depth.
\<close>

lemma self_parent_diverges:
  assumes "(ws, ''a'') \<notin> entities w" and "''a'' \<notin> created_entities w"
  shows "fst (create_iottwinmaker_entity n [bare ''a'' (Some ''a'')] (bare ''a'' (Some ''a''))
                ws comps chk w) = Diverge"
  using assms
proof (induction n arbitrary: w comps chk)
  case 0
  show ?case by (simp add: create_iottwinmaker_entity.simps)
next
  case (Suc n)
  let ?e = "bare ''a'' (Some ''a'')"
  let ?w1 = "after_call (GetEntity ws ''a'') w"
  let ?w2 = "after_call (GetEntity ws ''a'') ?w1"
  have "fst (create_iottwinmaker_entity n [?e] ?e ws comps True ?w2) = Diverge"
    using Suc.prems by (intro Suc.IH) simp_all
  then obtain w3 where "create_iottwinmaker_entity n [?e] ?e ws comps True ?w2 = (Diverge, w3)"
    by (cases "create_iottwinmaker_entity n [?e] ?e ws comps True ?w2") simp
  with Suc.prems show ?case
    by (simp add: create_iottwinmaker_entity.simps(2) bnd_def ret_def entity_exists_eq
        bare_def truthy_def)
qed

section \<open>The order of the creation calls\<close>

lemma created_in_simps [simp]:
  "created_in [] = {}"
  "created_in (xs @ ys) = created_in xs \<union> created_in ys"
  "created_in [CreateEntity req c] = {(workspaceId req, entityId req)}"
  "created_in [GetEntity ws i] = {}"
  "created_in [WaitOverGetEntity ws i] = {}"
  by (simp_all add: created_in_def)

lemma created_in_no_entity_calls:
  "\<forall>ev\<in>set evs. \<not> is_entity_call ev \<Longrightarrow> created_in evs = {}"
  by (auto simp add: created_in_def is_entity_call_def split: api_call.splits)

lemma parents_first_append:
  "parents_first R (xs @ ys) \<longleftrightarrow> parents_first R xs \<and> parents_first (R \<union> created_in xs) ys"
proof (induction xs arbitrary: R)
  case Nil
  show ?case by simp
next
  case (Cons ev xs)
  show ?case
    by (cases ev) (simp_all add: Cons.IH created_in_def)
qed

lemma parents_first_no_entity_calls:
  "\<forall>ev\<in>set evs. \<not> is_entity_call ev \<Longrightarrow> parents_first R evs"
  by (induction evs) (auto simp add: is_entity_call_def split: api_call.splits)

lemma parent_known_mono: "parent_known R req \<Longrightarrow> R \<subseteq> R' \<Longrightarrow> parent_known R' req"
  by (auto simp add: parent_known_def split: option.splits)

lemma ordered_non_entity:
  assumes "ordered ws R0 k w"
    and "calls w' = calls w @ evs" and "\<forall>ev\<in>set evs. \<not> is_entity_call ev"
    and "entities w' = entities w" and "created_entities w' = created_entities w"
  shows "ordered ws R0 k w'"
  using assms
  by (simp add: ordered_def cache_sound_def parents_first_append parents_first_no_entity_calls
      created_in_no_entity_calls)

lemma entity_exists_ordered:
  "valid (ordered ws R0 k) (entity_exists ws i)
     (\<lambda>b w. ordered ws R0 k w \<and> (b \<longrightarrow> (ws, i) \<in> entities w)) (ordered ws R0 k)"
  by (rule validI)
    (auto simp add: entity_exists_eq ordered_def cache_sound_def parents_first_append
      split: if_splits)

lemma build_comps_frame:
  assumes "build_comps e ws comps w = (r, w')"
  shows "entities w' = entities w \<and> created_entities w' = created_entities w
     \<and> (\<exists>evs. calls w' = calls w @ evs \<and> (\<forall>ev\<in>set evs. \<not> is_entity_call ev))"
proof (cases "truthy (component_type e)")
  case True
  obtain r1 w1 where c: "create_properties_component ws (component_type e) w = (r1, w1)"
    by (cases "create_properties_component ws (component_type e) w")
  with assms True have "w' = w1"
    by (auto simp add: build_comps_def populate_assets_def bnd_def ret_def split: res.splits)
  with cpc_frame [OF c] show ?thesis by simp
next
  case False
  with assms show ?thesis by (simp add: build_comps_def ret_def)
qed

lemma build_comps_ordered:
  "valid (ordered ws R0 k) (build_comps e ws comps) (\<lambda>_. ordered ws R0 k) (ordered ws R0 k)"
proof (rule validI)
  fix w x w' assume "ordered ws R0 k w" "build_comps e ws comps w = (Return x, w')"
  with build_comps_frame [of e ws comps w "Return x" w'] show "ordered ws R0 k w'"
    by (auto intro: ordered_non_entity)
next
  fix w x w' assume "ordered ws R0 k w" "build_comps e ws comps w = (Raise x, w')"
  with build_comps_frame [of e ws comps w "Raise x" w'] show "ordered ws R0 k w'"
    by (auto intro: ordered_non_entity)
next
  fix w w' assume "ordered ws R0 k w" "build_comps e ws comps w = (Diverge, w')"
  with build_comps_frame [of e ws comps w Diverge w'] show "ordered ws R0 k w'"
    by (auto intro: ordered_non_entity)
qed

lemma create_entity_api_ordered:
  assumes ws: "workspaceId ntt = ws"
  shows "valid (\<lambda>w. ordered ws R0 k w \<and> parent_known (entities w) ntt)
           (create_entity_api comps ntt ws chk)
           (\<lambda>_ w. ordered ws R0 k w \<and> (ws, entityId ntt) \<in> entities w) (ordered ws R0 k)"
proof -
  have step: "ordered ws R0 k (snd (client_create_entity ntt comps w))
      \<and> (fst (client_create_entity ntt comps w) = Return () \<longrightarrow>
            (ws, entityId ntt) \<in> entities (snd (client_create_entity ntt comps w)))"
    if "ordered ws R0 k w" "parent_known (entities w) ntt" for w
    using that ws parent_known_mono [of "entities w" ntt "R0 \<union> created_in (drop k (calls w))"]
    by (auto simp add: client_create_entity_def bnd_def remote_call_eq ordered_def
        cache_sound_def parents_first_append split: list.splits option.splits)
  have wait: "ordered ws R0 k (snd (wait_over (WaitOverGetEntity ws i) w))
      \<and> entities (snd (wait_over (WaitOverGetEntity ws i) w)) = entities w"
    if "ordered ws R0 k w" for w i
    using that
    by (auto simp add: wait_over_def remote_call_eq ordered_def cache_sound_def
        parents_first_append)
  show ?thesis
  proof (rule validI)
    fix w x w'
    assume pre: "ordered ws R0 k w \<and> parent_known (entities w) ntt"
      and run: "create_entity_api comps ntt ws chk w = (Return x, w')"
    from run obtain w1 where c: "client_create_entity ntt comps w = (Return (), w1)"
      and rest: "(if chk then wait_over (WaitOverGetEntity ws (entityId ntt)) else ret ()) w1
                   = (Return x, w')"
      by (auto simp add: create_entity_api_def bnd_Return)
    from step [of w] pre c have 1: "ordered ws R0 k w1" "(ws, entityId ntt) \<in> entities w1"
      by auto
    from rest wait [OF 1(1), of "entityId ntt"] 1
    show "ordered ws R0 k w' \<and> (ws, entityId ntt) \<in> entities w'"
      by (auto simp add: ret_def split: if_splits)
  next
    fix w x w'
    assume pre: "ordered ws R0 k w \<and> parent_known (entities w) ntt"
      and run: "create_entity_api comps ntt ws chk w = (Raise x, w')"
    obtain r1 w1 where c: "client_create_entity ntt comps w = (r1, w1)"
      by (cases "client_create_entity ntt comps w")
    from step [of w] pre c have 1: "ordered ws R0 k w1" by auto
    from run c wait [OF 1, of "entityId ntt"] 1 show "ordered ws R0 k w'"
      by (auto simp add: create_entity_api_def bnd_def ret_def split: res.splits if_splits)
  next
    fix w w'
    assume pre: "ordered ws R0 k w \<and> parent_known (entities w) ntt"
      and run: "create_entity_api comps ntt ws chk w = (Diverge, w')"
    obtain r1 w1 where c: "client_create_entity ntt comps w = (r1, w1)"
      by (cases "client_create_entity ntt comps w")
    from step [of w] pre c have 1: "ordered ws R0 k w1" by auto
    from run c wait [OF 1, of "entityId ntt"] 1 show "ordered ws R0 k w'"
      by (auto simp add: create_entity_api_def bnd_def ret_def split: res.splits if_splits)
  qed
qed

lemma create_iottwinmaker_entity_ordered:
  "valid (ordered ws R0 k) (create_iottwinmaker_entity n inp e ws comps chk)
     (\<lambda>_ w. ordered ws R0 k w \<and> (ws, entity_id e) \<in> entities w) (ordered ws R0 k)"
proof (induction n arbitrary: e comps chk)
  case 0
  show ?case by (rule validI) (simp_all add: create_iottwinmaker_entity.simps)
next
  case (Suc n)
  have parent: "valid (ordered ws R0 k) (resolve_parent n inp e ws c)
      (\<lambda>pid w. ordered ws R0 k w \<and> (pid = ''$ROOT'' \<or> (ws, pid) \<in> entities w))
      (ordered ws R0 k)" for c
  proof (cases "parent_entity_id e")
    case None
    then show ?thesis
      by (simp add: resolve_parent_def valid_ret)
  next
    case (Some p)
    show ?thesis
    proof (cases "get_parent_from_input inp p")
      case None
      have "valid (ordered ws R0 k)
          (bnd (create_entity_api c (create_root p (parent_name e) ws) ws True) (\<lambda>_. ret p))
          (\<lambda>pid w. ordered ws R0 k w \<and> (pid = ''$ROOT'' \<or> (ws, pid) \<in> entities w))
          (ordered ws R0 k)"
        by (rule valid_bnd [OF valid_pre [OF create_entity_api_ordered]])
          (auto simp add: parent_known_def intro!: valid_ret)
      then show ?thesis
        unfolding resolve_parent_def
        by (auto simp add: \<open>parent_entity_id e = Some p\<close> None
            intro!: valid_bnd [OF entity_exists_ordered] valid_ret
            intro: valid_pre)
    next
      case (Some e')
      then have id: "entity_id e' = p"
        by (simp add: get_parent_from_input_Some)
      have "valid (ordered ws R0 k)
          (bnd (create_iottwinmaker_entity n inp e' ws c True) (\<lambda>_. ret p))
          (\<lambda>pid w. ordered ws R0 k w \<and> (pid = ''$ROOT'' \<or> (ws, pid) \<in> entities w))
          (ordered ws R0 k)"
        by (rule valid_bnd [OF Suc.IH]) (auto simp add: id intro!: valid_ret)
      then show ?thesis
        unfolding resolve_parent_def
        by (auto simp add: \<open>parent_entity_id e = Some p\<close> Some
            intro!: valid_bnd [OF entity_exists_ordered] valid_ret
            intro: valid_pre)
    qed
  qed
  have final: "valid (\<lambda>w. ordered ws R0 k w \<and> (pid = ''$ROOT'' \<or> (ws, pid) \<in> entities w))
      (create_entity_api c (ntt_of e pid ws) ws chk)
      (\<lambda>_ w. ordered ws R0 k w \<and> (ws, entity_id e) \<in> entities w) (ordered ws R0 k)" for c pid
    by (rule valid_conseq [OF create_entity_api_ordered [of "ntt_of e pid ws" ws R0 k c chk]])
      (auto simp add: parent_known_def)
  show ?case
    unfolding resolver_unfold
    by (auto intro!: valid_bnd [OF entity_exists_ordered] valid_ret
          valid_bnd [OF build_comps_ordered] valid_bnd [OF parent] final)
qed

lemma valid_ordered_frame:
  assumes "\<And>w r w'. m w = (r, w') \<Longrightarrow>
      entities w' = entities w \<and> created_entities w' = created_entities w
      \<and> (\<exists>evs. calls w' = calls w @ evs \<and> (\<forall>ev\<in>set evs. \<not> is_entity_call ev))"
  shows "valid (ordered ws R0 k) m (\<lambda>_. ordered ws R0 k) (ordered ws R0 k)"
proof (rule validI)
  fix w x w' assume "ordered ws R0 k w" "m w = (Return x, w')"
  with assms [of w "Return x" w'] show "ordered ws R0 k w'"
    by (auto intro: ordered_non_entity)
next
  fix w x w' assume "ordered ws R0 k w" "m w = (Raise x, w')"
  with assms [of w "Raise x" w'] show "ordered ws R0 k w'"
    by (auto intro: ordered_non_entity)
next
  fix w w' assume "ordered ws R0 k w" "m w = (Diverge, w')"
  with assms [of w Diverge w'] show "ordered ws R0 k w'"
    by (auto intro: ordered_non_entity)
qed

lemma populate_assets_frame:
  assumes "populate_assets e c ws w = (r, w')"
  shows "entities w' = entities w \<and> created_entities w' = created_entities w
     \<and> (\<exists>evs. calls w' = calls w @ evs \<and> (\<forall>ev\<in>set evs. \<not> is_entity_call ev))"
proof -
  obtain r1 w1 where c: "create_properties_component ws c w = (r1, w1)"
    by (cases "create_properties_component ws c w")
  with assms have "w' = w1"
    by (auto simp add: populate_assets_def bnd_def ret_def split: res.splits)
  with cpc_frame [OF c] show ?thesis by simp
qed

lemma process_loop_ordered:
  "valid (ordered ws R0 k) (process_loop n inp rest ws comp_id)
     (\<lambda>_. ordered ws R0 k) (ordered ws R0 k)"
proof (induction rest)
  case Nil
  show ?case by (rule validI) simp_all
next
  case (Cons e rest)
  have "process_loop n inp (e # rest) ws comp_id
      = bnd (populate_assets e comp_id ws)
          (\<lambda>comps. bnd (create_iottwinmaker_entity n inp e ws (Some comps) False)
             (\<lambda>_. process_loop n inp rest ws comp_id))"
    by (rule ext) simp
  moreover have res: "valid (ordered ws R0 k) (create_iottwinmaker_entity n inp e ws c False)
      (\<lambda>_. ordered ws R0 k) (ordered ws R0 k)" for c
    by (rule valid_post [OF create_iottwinmaker_entity_ordered]) simp
  have "valid (ordered ws R0 k)
      (bnd (populate_assets e comp_id ws)
          (\<lambda>comps. bnd (create_iottwinmaker_entity n inp e ws (Some comps) False)
             (\<lambda>_. process_loop n inp rest ws comp_id)))
      (\<lambda>_. ordered ws R0 k) (ordered ws R0 k)"
    by (intro valid_bnd [OF valid_ordered_frame [OF populate_assets_frame]]
        valid_bnd [OF res] Cons.IH)
  ultimately show ?case
    by simp
qed

lemma create_iottwinmaker_entities_ordered:
  "valid (ordered ws R0 k) (create_iottwinmaker_entities n inp ws comp_id role)
     (\<lambda>_. ordered ws R0 k) (ordered ws R0 k)"
proof -
  have 1: "valid (ordered ws R0 k) (create_workspace ws role) (\<lambda>_. ordered ws R0 k) (ordered ws R0 k)"
    by (rule valid_ordered_frame) (use create_workspace_frame in blast)
  have 2: "valid (ordered ws R0 k) (create_properties_component ws comp_id)
      (\<lambda>_. ordered ws R0 k) (ordered ws R0 k)"
    by (rule valid_ordered_frame) (use cpc_frame in blast)
  show ?thesis
    unfolding create_iottwinmaker_entities_def process_records_def
    by (intro valid_bnd [OF 1] valid_bnd [OF 2] process_loop_ordered)
qed

lemma parents_first_explicit:
  assumes "parents_first R evs" and "j < length evs" and "evs ! j = CreateEntity req c"
    and "parentEntityId req = Some p" and "p \<noteq> ''$ROOT''"
  shows "(workspaceId req, p) \<in> R
     \<or> (\<exists>i<j. \<exists>req' c'. evs ! i = CreateEntity req' c' \<and> entityId req' = p
           \<and> workspaceId req' = workspaceId req)"
  using assms
proof (induction evs arbitrary: R j)
  case Nil
  then show ?case by simp
next
  case (Cons ev evs)
  show ?case
  proof (cases j)
    case 0
    with Cons.prems show ?thesis
      by (simp add: parent_known_def)
  next
    case (Suc j')
    define R' where "R' = (case ev of CreateEntity r0 c0 \<Rightarrow> insert (workspaceId r0, entityId r0) R
                             | _ \<Rightarrow> R)"
    from Cons.prems(1) have pf: "parents_first R' evs"
      by (cases ev) (simp_all add: R'_def)
    from Cons.IH [OF pf, of j'] Cons.prems Suc
    have "(workspaceId req, p) \<in> R'
       \<or> (\<exists>i<j'. \<exists>req' c'. evs ! i = CreateEntity req' c' \<and> entityId req' = p
             \<and> workspaceId req' = workspaceId req)"
      by simp
    then show ?thesis
    proof
      assume "(workspaceId req, p) \<in> R'"
      then consider "(workspaceId req, p) \<in> R"
        | r0 c0 where "ev = CreateEntity r0 c0" "workspaceId r0 = workspaceId req" "entityId r0 = p"
        by (cases ev) (auto simp add: R'_def)
      then show ?thesis
      proof cases
        case 1
        then show ?thesis by simp
      next
        case 2
        then have "(ev # evs) ! 0 = CreateEntity r0 c0 \<and> entityId r0 = p
              \<and> workspaceId r0 = workspaceId req"
          by simp
        with Suc show ?thesis by blast
      qed
    next
      assume "\<exists>i<j'. \<exists>req' c'. evs ! i = CreateEntity req' c' \<and> entityId req' = p
             \<and> workspaceId req' = workspaceId req"
      then obtain i req' c' where "i < j'" "evs ! i = CreateEntity req' c'" "entityId req' = p"
        "workspaceId req' = workspaceId req"
        by blast
      then have "Suc i < j \<and> (ev # evs) ! Suc i = CreateEntity req' c' \<and> entityId req' = p
          \<and> workspaceId req' = workspaceId req"
        using Suc by simp
      then show ?thesis by blast
    qed
  qed
qed

lemma chain_import_run:
  "fst (create_iottwinmaker_entities (Suc (Suc (Suc 0))) chain_input ''ws'' None None fresh_world)
     = Return ()
   \<and> calls (snd (create_iottwinmaker_entities (Suc (Suc (Suc 0))) chain_input ''ws'' None None
                   fresh_world))
     = [ListWorkspaces, GetEntity ''ws'' ''c'', GetEntity ''ws'' ''b'', GetEntity ''ws'' ''b'',
        GetEntity ''ws'' ''a'', GetEntity ''ws'' ''a'',
        CreateEntity (ntt_of (bare ''a'' None) ''$ROOT'' ''ws'') chain_comps,
        WaitOverGetEntity ''ws'' ''a'',
        CreateEntity (ntt_of (bare ''b'' (Some ''a'')) ''a'' ''ws'') chain_comps,
        WaitOverGetEntity ''ws'' ''b'',
        CreateEntity (ntt_of (bare ''c'' (Some ''b'')) ''b'' ''ws'') chain_comps,
        GetEntity ''ws'' ''b'', GetEntity ''ws'' ''a'']"
  by (simp add: create_iottwinmaker_entities_def process_records_def create_workspace_def
      client_list_workspaces_def create_properties_component_def populate_assets_def payload_def
      create_iottwinmaker_entity.simps chain_input_def bare_def fresh_world_def bnd_def ret_def
      entity_exists_eq healthy_next_def create_entity_api_def client_create_entity_def
      wait_over_def remote_call_eq truthy_def ntt_of_def chain_comps_def)

section \<open>A run with nothing left to create\<close>

lemma create_workspace_quiet:
  "valid (quiet ws comp_id inp v k) (create_workspace ws role)
     (\<lambda>_. quiet ws comp_id inp v k) (\<lambda>_. False)"
  by (rule validI)
    (auto simp add: create_workspace_def client_list_workspaces_def bnd_def remote_call_eq
      ret_def quiet_def settled_def is_read_call_def split: if_splits)

lemma create_properties_component_quiet:
  "valid (quiet ws comp_id inp v k) (create_properties_component ws comp_id)
     (\<lambda>_. quiet ws comp_id inp v k) (\<lambda>_. False)"
  by (rule validI)
    (auto simp add: create_properties_component_def client_list_component_types_def bnd_def
      remote_call_eq quiet_def settled_def is_read_call_def split: if_splits option.splits)

lemma populate_assets_quiet:
  "valid (quiet ws comp_id inp v k) (populate_assets e comp_id ws)
     (\<lambda>_. quiet ws comp_id inp v k) (\<lambda>_. False)"
  unfolding populate_assets_def
  by (intro valid_bnd [OF create_properties_component_quiet] valid_ret)

lemma resolver_quiet:
  assumes "e \<in> set inp"
  shows "valid (quiet ws comp_id inp v k) (create_iottwinmaker_entity (Suc n) inp e ws comps chk)
     (\<lambda>_. quiet ws comp_id inp v k) (\<lambda>_. False)"
proof -
  have "valid (quiet ws comp_id inp v k) (entity_exists ws (entity_id e))
      (\<lambda>b w. quiet ws comp_id inp v k w \<and> b) (\<lambda>_. False)"
    using assms
    by (intro validI)
      (auto simp add: entity_exists_eq quiet_def settled_def healthy_next_def is_read_call_def
        split: if_splits)
  then show ?thesis
    unfolding resolver_unfold
    by (rule valid_bnd) (auto intro!: valid_ret intro: validI)
qed

lemma process_loop_quiet:
  assumes "set rest \<subseteq> set inp"
  shows "valid (quiet ws comp_id inp v k) (process_loop (Suc n) inp rest ws comp_id)
     (\<lambda>_. quiet ws comp_id inp v k) (\<lambda>_. False)"
  using assms
proof (induction rest)
  case Nil
  show ?case by (rule validI) simp_all
next
  case (Cons e rest)
  have eq: "process_loop (Suc n) inp (e # rest) ws comp_id
      = bnd (populate_assets e comp_id ws)
          (\<lambda>comps. bnd (create_iottwinmaker_entity (Suc n) inp e ws (Some comps) False)
             (\<lambda>_. process_loop (Suc n) inp rest ws comp_id))"
    by (rule ext) simp
  from Cons.prems have e: "e \<in> set inp" and rest: "set rest \<subseteq> set inp"
    by simp_all
  show ?case
    unfolding eq
    by (intro valid_bnd [OF populate_assets_quiet] valid_bnd [OF resolver_quiet [OF e]]
        Cons.IH [OF rest])
qed

lemma import_quiet:
  "valid (quiet ws comp_id inp v k) (create_iottwinmaker_entities (Suc n) inp ws comp_id role)
     (\<lambda>_. quiet ws comp_id inp v k) (\<lambda>_. False)"
  unfolding create_iottwinmaker_entities_def process_records_def
  by (intro valid_bnd [OF create_workspace_quiet] valid_bnd [OF create_properties_component_quiet]
      process_loop_quiet) simp

lemma create_workspace_Return:
  "create_workspace ws role w = (Return x, w') \<Longrightarrow> ws \<in> set (workspaces w')"
  by (auto simp add: create_workspace_def client_list_workspaces_def client_create_workspace_def
      get_role_from_identity_def bnd_Return remote_call_Return ret_def Let_def
      split: if_splits option.splits)

lemma create_properties_component_Return:
  assumes "create_properties_component ws comp_id w = (Return x, w')"
    and "\<forall>c\<in>created_component_types w. (ws, c) \<in> set (component_types w)"
    and "comp_id = Some c" and "c \<noteq> []"
  shows "(ws, c) \<in> set (component_types w')"
  using assms
  by (auto simp add: create_properties_component_def client_list_component_types_def
      client_create_component_type_def wait_over_def bnd_Return remote_call_Return
      split: if_splits)

lemma process_loop_Return:
  assumes "ordered ws R0 k w" and "process_loop n inp rest ws comp_id w = (Return (), w')"
  shows "\<forall>e\<in>set rest. (ws, entity_id e) \<in> entities w'"
  using assms
proof (induction rest arbitrary: w)
  case Nil
  show ?case by simp
next
  case (Cons e rest)
  from Cons.prems(2) obtain c w1 w2 where
    1: "populate_assets e comp_id ws w = (Return c, w1)"
    and 2: "create_iottwinmaker_entity n inp e ws (Some c) False w1 = (Return (), w2)"
    and 3: "process_loop n inp rest ws comp_id w2 = (Return (), w')"
    by (auto simp add: bnd_Return)
  from populate_assets_frame [OF 1] Cons.prems(1) have o1: "ordered ws R0 k w1"
    by (auto intro: ordered_non_entity)
  from valid_Return [OF create_iottwinmaker_entity_ordered o1 2]
  have o2: "ordered ws R0 k w2" and here: "(ws, entity_id e) \<in> entities w2"
    by simp_all
  from process_loop_grows [of w2 n inp rest ws comp_id] 3 have "entities w2 \<subseteq> entities w'"
    by (simp add: grows_def)
  with here Cons.IH [OF o2 3] show ?case
    by auto
qed

lemma first_run_settles:
  assumes sound: "cache_sound ws w0"
    and csound: "\<forall>c\<in>created_component_types w0. (ws, c) \<in> set (component_types w0)"
    and run: "create_iottwinmaker_entities n inp ws comp_id role w0 = (Return (), w1)"
  shows "settled ws comp_id inp w1"
proof -
  from run obtain wa wb where
    1: "create_workspace ws role w0 = (Return (), wa)"
    and 2: "create_properties_component ws comp_id wa = (Return (), wb)"
    and 3: "process_loop n inp inp ws comp_id wb = (Return (), w1)"
    by (auto simp add: create_iottwinmaker_entities_def process_records_def bnd_Return)
  from create_workspace_frame [OF 1] have fa: "entities wa = entities w0"
    "created_entities wa = created_entities w0"
    "created_component_types wa = created_component_types w0"
    "component_types wa = component_types w0"
    by simp_all
  from cpc_frame [OF 2] have fb: "entities wb = entities wa"
    "created_entities wb = created_entities wa" "workspaces wb = workspaces wa"
    by simp_all
  have g: "grows wb w1"
    using process_loop_grows [of wb n inp inp ws comp_id] 3 by simp
  have "ws \<in> set (workspaces w1)"
    using create_workspace_Return [OF 1] fb g by (auto simp add: grows_def)
  moreover have "(ws, c) \<in> set (component_types w1)" if "comp_id = Some c" "c \<noteq> []" for c
    using create_properties_component_Return [OF 2 _ that] csound fa g
    by (auto simp add: grows_def)
  moreover have "ordered ws (entities wb) (length (calls wb)) wb"
    using sound fa fb by (simp add: ordered_def cache_sound_def)
  from process_loop_Return [OF this 3] have "\<forall>e\<in>set inp. (ws, entity_id e) \<in> entities w1" .
  ultimately show ?thesis
    by (simp add: settled_def)
qed

section \<open>Errors of the existence check\<close>

text \<open>
  Claim C4. For every workspace id and entity id that is not in the cache (so that the
  remote check is made): whenever \<open>getEntity\<close> raises an error \<open>e\<close>, whichever it is
  (not found, transport or authorisation failure, or any other), \<open>entity_exists\<close>
  returns \<open>False\<close> and the cache is as it was, without the id.
\<close>

theorem entity_exists_any_error:
  assumes "eid \<notin> created_entities w"
    and "client_get_entity workspace_id eid w = (Raise e, w1)"
  shows "entity_exists workspace_id eid w = (Return False, w1)
         \<and> created_entities w1 = created_entities w \<and> eid \<notin> created_entities w1"
proof -
  have "w1 = after_call (GetEntity workspace_id eid) w"
    using assms(2)
    by (auto simp add: client_get_entity_def bnd_def remote_call_eq
        split: list.splits option.splits if_splits)
  then show ?thesis
    using assms by (simp add: entity_exists_def)
qed

text \<open>
  An entity that does exist remotely, behind a call that meets a transport failure:
  the existence check answers \<open>False\<close>.
\<close>

theorem entity_exists_any_error_witness:
  "''a'' \<notin> created_entities (fresh_world\<lparr>entities := {(''ws'', ''a'')}, faults := [Some TransportOrAuthFailure]\<rparr>)
   \<and> client_get_entity ''ws'' ''a''
        (fresh_world\<lparr>entities := {(''ws'', ''a'')}, faults := [Some TransportOrAuthFailure]\<rparr>)
      = (Raise TransportOrAuthFailure,
         fresh_world\<lparr>entities := {(''ws'', ''a'')}, calls := [GetEntity ''ws'' ''a'']\<rparr>)
   \<and> entity_exists ''ws'' ''a''
        (fresh_world\<lparr>entities := {(''ws'', ''a'')}, faults := [Some TransportOrAuthFailure]\<rparr>)
      = (Return False, fresh_world\<lparr>entities := {(''ws'', ''a'')}, calls := [GetEntity ''ws'' ''a'']\<rparr>)"
proof -
  let ?w = "fresh_world\<lparr>entities := {(''ws'', ''a'')}, faults := [Some TransportOrAuthFailure]\<rparr>"
  let ?w1 = "fresh_world\<lparr>entities := {(''ws'', ''a'')}, calls := [GetEntity ''ws'' ''a'']\<rparr>"
  have h1: "''a'' \<notin> created_entities ?w"
    by (simp add: fresh_world_def)
  have h2: "client_get_entity ''ws'' ''a'' ?w = (Raise TransportOrAuthFailure, ?w1)"
    by (simp add: client_get_entity_def bnd_def remote_call_def fresh_world_def)
  from entity_exists_any_error [OF h1 h2] h1 h2 show ?thesis
    by simp
qed

section \<open>The chain scenario\<close>

text \<open>
  Claim C8. For the input \<open>[c under b, b under a, a]\<close>, with none of the three
  entities existing remotely (nor cached) and a service that answers every call,
  resolving \<open>c\<close> with a recursion depth of three or more returns, and the calls it
  issues are, in order: the existence checks, then the creation of \<open>a\<close> and the wait
  for \<open>a\<close>, the creation of \<open>b\<close> and the wait for \<open>b\<close>, and last the creation of
  \<open>c\<close>, with no wait after it.
\<close>

theorem chain_creation_order:
  assumes "faults w = []"
    and "(ws, ''a'') \<notin> entities w" and "(ws, ''b'') \<notin> entities w" and "(ws, ''c'') \<notin> entities w"
    and "''a'' \<notin> created_entities w" and "''b'' \<notin> created_entities w"
    and "''c'' \<notin> created_entities w"
  shows "fst (create_iottwinmaker_entity (Suc (Suc (Suc n))) chain_input
                (bare ''c'' (Some ''b'')) ws comps False w) = Return ()
    \<and> calls (snd (create_iottwinmaker_entity (Suc (Suc (Suc n))) chain_input
                (bare ''c'' (Some ''b'')) ws comps False w))
       = calls w @
         [GetEntity ws ''c'', GetEntity ws ''b'', GetEntity ws ''b'', GetEntity ws ''a'',
          GetEntity ws ''a'',
          CreateEntity (ntt_of (bare ''a'' None) ''$ROOT'' ws) comps, WaitOverGetEntity ws ''a'',
          CreateEntity (ntt_of (bare ''b'' (Some ''a'')) ''a'' ws) comps, WaitOverGetEntity ws ''b'',
          CreateEntity (ntt_of (bare ''c'' (Some ''b'')) ''b'' ws) comps]"
  using assms by (rule chain_run)

theorem chain_creation_order_witness:
  "fst (create_iottwinmaker_entity (Suc (Suc (Suc 0))) chain_input
          (bare ''c'' (Some ''b'')) ''ws'' None False fresh_world) = Return ()
    \<and> calls (snd (create_iottwinmaker_entity (Suc (Suc (Suc 0))) chain_input
                (bare ''c'' (Some ''b'')) ''ws'' None False fresh_world))
       = [GetEntity ''ws'' ''c'', GetEntity ''ws'' ''b'', GetEntity ''ws'' ''b'',
          GetEntity ''ws'' ''a'', GetEntity ''ws'' ''a'',
          CreateEntity (ntt_of (bare ''a'' None) ''$ROOT'' ''ws'') None,
          WaitOverGetEntity ''ws'' ''a'',
          CreateEntity (ntt_of (bare ''b'' (Some ''a'')) ''a'' ''ws'') None,
          WaitOverGetEntity ''ws'' ''b'',
          CreateEntity (ntt_of (bare ''c'' (Some ''b'')) ''b'' ''ws'') None]"
  using chain_creation_order [of fresh_world "''ws''" 0 None]
  by (simp add: fresh_world_def)

section \<open>Missing parents\<close>

text \<open>
  Claim C6. For every record of the input set that is not yet in the workspace, whose
  \<open>parent_entity_id\<close> has no matching record in the input set and does not exist
  remotely: with a service that answers every call the resolution of the record
  returns; and whenever it returns, the entity calls it issued are exactly the two
  existence checks, then one creation of the synthetic placeholder, whose id is the
  \<open>parent_entity_id\<close>, then the wait for the placeholder, and only then the creation
  of the record itself (followed by a wait only when the caller asked for one).
\<close>

theorem missing_parent_synthesis:
  assumes "e \<in> set inp"
    and "parent_entity_id e = Some p" and "get_parent_from_input inp p = None"
    and "cache_sound ws w"
    and "(ws, entity_id e) \<notin> entities w" and "(ws, p) \<notin> entities w"
  shows "(faults w = [] \<longrightarrow>
            fst (create_iottwinmaker_entity (Suc n) inp e ws comps chk w) = Return ())
    \<and> (fst (create_iottwinmaker_entity (Suc n) inp e ws comps chk w) = Return () \<longrightarrow>
         filter is_entity_call
           (new_calls w (snd (create_iottwinmaker_entity (Suc n) inp e ws comps chk w)))
         = [GetEntity ws (entity_id e), GetEntity ws p,
            CreateEntity (create_root p (parent_name e) ws) (own_comps e comps),
            WaitOverGetEntity ws p,
            CreateEntity (ntt_of e p ws) (own_comps e comps)]
           @ (if chk then [WaitOverGetEntity ws (entity_id e)] else []))
    \<and> entityId (create_root p (parent_name e) ws) = p"
proof -
  from assms have e1: "entity_id e \<notin> created_entities w" and p1: "p \<notin> created_entities w"
    by (auto simp add: cache_sound_def)
  from assms have ne: "p \<noteq> entity_id e"
    by (auto simp add: get_parent_from_input_None)
  let ?run = "create_iottwinmaker_entity (Suc n) inp e ws comps chk w"
  have "faults w = [] \<Longrightarrow> fst ?run = Return ()"
    by (rule missing_parent_returns [OF assms(2,3) e1 assms(5) p1 assms(6) ne])
  moreover have "fst ?run = Return () \<Longrightarrow>
      filter is_entity_call (new_calls w (snd ?run))
         = [GetEntity ws (entity_id e), GetEntity ws p,
            CreateEntity (create_root p (parent_name e) ws) (own_comps e comps),
            WaitOverGetEntity ws p,
            CreateEntity (ntt_of e p ws) (own_comps e comps)]
           @ (if chk then [WaitOverGetEntity ws (entity_id e)] else [])"
    by (rule missing_parent_calls [OF assms(2,3) e1 assms(5) p1 assms(6)]) (rule pair_fst_snd)
  ultimately show ?thesis
    by simp
qed

theorem missing_parent_synthesis_witness:
  "fst (create_iottwinmaker_entity (Suc 0) [orphan_record] orphan_record ''ws'' None False
          fresh_world) = Return ()
   \<and> filter is_entity_call
       (new_calls fresh_world
          (snd (create_iottwinmaker_entity (Suc 0) [orphan_record] orphan_record ''ws'' None
                  False fresh_world)))
     = [GetEntity ''ws'' ''x'', GetEntity ''ws'' ''orphan'',
        CreateEntity (create_root ''orphan'' (Some ''$ROOT'') ''ws'')
          (Some (payload orphan_record (Some ''ct''))),
        WaitOverGetEntity ''ws'' ''orphan'',
        CreateEntity (ntt_of orphan_record ''orphan'' ''ws'')
          (Some (payload orphan_record (Some ''ct'')))]"
  using missing_parent_synthesis [of orphan_record "[orphan_record]" "''orphan''" "''ws''"
      fresh_world 0 None False]
  by (simp add: orphan_record_def bare_def fresh_world_def cache_sound_def own_comps_def
      truthy_def)

section \<open>The name of a synthetic root\<close>

text \<open>
  Claim C7. When the parent of a record is named by the sentinel \<open>$ROOT\<close> and a
  synthetic root is created for it (the parent id has no record in the input set and
  does not exist remotely, and the record itself has to be created), the request built
  by \<open>create_root\<close> has the name \<open>ROOT\<close> and the description \<open>ROOT\<close>; with a
  service that answers every call the resolution returns, and whenever it returns that
  request is among the creation calls it issued.
\<close>

theorem sentinel_root_name:
  assumes "e \<in> set inp"
    and "parent_entity_id e = Some p" and "parent_name e = Some ''$ROOT''"
    and "get_parent_from_input inp p = None"
    and "cache_sound ws w"
    and "(ws, entity_id e) \<notin> entities w" and "(ws, p) \<notin> entities w"
  shows "create_root p (parent_name e) ws =
           \<lparr>entityName = Some ''ROOT'', entityId = p, parentEntityId = None,
            ntt_description = Some ''ROOT'', workspaceId = ws\<rparr>
    \<and> (faults w = [] \<longrightarrow>
          fst (create_iottwinmaker_entity (Suc n) inp e ws comps chk w) = Return ())
    \<and> (fst (create_iottwinmaker_entity (Suc n) inp e ws comps chk w) = Return () \<longrightarrow>
          CreateEntity \<lparr>entityName = Some ''ROOT'', entityId = p, parentEntityId = None,
                        ntt_description = Some ''ROOT'', workspaceId = ws\<rparr> (own_comps e comps)
            \<in> set (new_calls w (snd (create_iottwinmaker_entity (Suc n) inp e ws comps chk w))))"
proof -
  from assms have e1: "entity_id e \<notin> created_entities w" and p1: "p \<notin> created_entities w"
    by (auto simp add: cache_sound_def)
  from assms have ne: "p \<noteq> entity_id e"
    by (auto simp add: get_parent_from_input_None)
  let ?run = "create_iottwinmaker_entity (Suc n) inp e ws comps chk w"
  let ?root = "\<lparr>entityName = Some ''ROOT'', entityId = p, parentEntityId = None,
                ntt_description = Some ''ROOT'', workspaceId = ws\<rparr>"
  have root: "create_root p (parent_name e) ws = ?root"
    by (simp add: create_root_def Let_def assms(3))
  have "faults w = [] \<Longrightarrow> fst ?run = Return ()"
    by (rule missing_parent_returns [OF assms(2,4) e1 assms(6) p1 assms(7) ne])
  moreover have "CreateEntity ?root (own_comps e comps) \<in> set (new_calls w (snd ?run))"
    if "fst ?run = Return ()"
  proof -
    have "CreateEntity ?root (own_comps e comps) \<in> set (filter is_entity_call (new_calls w (snd ?run)))"
      by (simp add: missing_parent_calls [OF assms(2,4) e1 assms(6) p1 assms(7) pair_fst_snd [OF that]] root)
    then show ?thesis
      by simp
  qed
  ultimately show ?thesis
    using root by simp
qed

text \<open>The unresolvable-parent record, whose parent name is the sentinel.\<close>

theorem sentinel_root_name_witness:
  "fst (create_iottwinmaker_entity (Suc 0) [orphan_record] orphan_record ''ws'' None False
          fresh_world) = Return ()
   \<and> CreateEntity \<lparr>entityName = Some ''ROOT'', entityId = ''orphan'', parentEntityId = None,
                    ntt_description = Some ''ROOT'', workspaceId = ''ws''\<rparr>
         (Some (payload orphan_record (Some ''ct'')))
       \<in> set (new_calls fresh_world
                (snd (create_iottwinmaker_entity (Suc 0) [orphan_record] orphan_record ''ws''
                        None False fresh_world)))"
  using sentinel_root_name [of orphan_record "[orphan_record]" "''orphan''" "''ws''"
      fresh_world 0 None False]
  by (simp add: orphan_record_def bare_def fresh_world_def cache_sound_def own_comps_def
      truthy_def)

section \<open>Where a component payload is attached\<close>




section \<open>The caches\<close>

text \<open>
  Claim C9. From any world of a run, through the resolution of a record, through the
  loop over the records and through the whole import: both caches only gain entries,
  and an entity id that is in the cache (of a cache that holds only ids existing in the
  workspace) is the subject of no further \<open>getEntity\<close> call, be it an existence check
  or the poll of an activation wait. The checks themselves consult the cache first: for
  a cached entity id \<open>entity_exists\<close> answers \<open>True\<close> and issues no call, and for a
  cached component type id \<open>create_properties_component\<close> returns and issues no
  call, so no \<open>listComponentTypes\<close>.
\<close>

theorem caches_monotone_and_consulted_first:
  "cache_respected ws w (snd (create_iottwinmaker_entity n j_data e ws comps chk w))
   \<and> cache_respected ws w (snd (process_records n j_data ws comp_id w))
   \<and> cache_respected ws w (snd (create_iottwinmaker_entities n j_data ws comp_id role w))
   \<and> (i \<in> created_entities w \<longrightarrow> entity_exists ws i w = (Return True, w))
   \<and> (c \<in> created_component_types w \<longrightarrow>
         create_properties_component ws (Some c) w = (Return (), w))"
  by (simp add: cache_respectedI create_iottwinmaker_entity_grows
      create_iottwinmaker_entity_not_rechecked process_records_def process_loop_grows
      process_loop_not_rechecked create_iottwinmaker_entities_grows
      create_iottwinmaker_entities_not_rechecked entity_exists_def
      create_properties_component_def)

text \<open>
  A process that has cached the entity \<open>a\<close> and the component type \<open>ct\<close> imports
  the chain.
\<close>

theorem caches_monotone_and_consulted_first_witness:
  "cache_sound ''ws'' cached_world \<and> ''a'' \<in> created_entities cached_world
   \<and> ''ct'' \<in> created_component_types cached_world
   \<and> ''a'' \<in> created_entities
        (snd (create_iottwinmaker_entities 3 chain_input ''ws'' (Some ''ct'') None cached_world))
   \<and> ''ct'' \<in> created_component_types
        (snd (create_iottwinmaker_entities 3 chain_input ''ws'' (Some ''ct'') None cached_world))
   \<and> GetEntity ''ws'' ''a'' \<notin> set (new_calls cached_world
        (snd (create_iottwinmaker_entities 3 chain_input ''ws'' (Some ''ct'') None cached_world)))
   \<and> entity_exists ''ws'' ''a'' cached_world = (Return True, cached_world)
   \<and> create_properties_component ''ws'' (Some ''ct'') cached_world = (Return (), cached_world)"
proof -
  have h: "cache_sound ''ws'' cached_world" "''a'' \<in> created_entities cached_world"
    "''ct'' \<in> created_component_types cached_world"
    by (simp_all add: cache_sound_def cached_world_def fresh_world_def)
  from caches_monotone_and_consulted_first [of "''ws''" cached_world 3 chain_input
      "bare ''a'' None" None False "Some ''ct''" None "''a''" "''ct''"] h
  show ?thesis
    by (auto simp add: cache_respected_def)
qed

section \<open>What fills the entity cache\<close>

text \<open>
  Claim C10. Through a resolution that returns, every id the entity cache gains was the
  subject of a \<open>getEntity\<close> existence check and exists remotely; \<open>create_entity_api\<close>
  leaves the cache as it is, and \<open>entity_exists\<close> adds the id exactly when the id was
  not cached and \<open>getEntity\<close> returned. So every entity the resolution has created is
  not cached when the resolution returns, and the next reference to it issues a
  \<open>getEntity\<close> call.
\<close>

theorem cache_filled_only_by_checks:
  assumes "cache_sound ws w"
    and "create_iottwinmaker_entity n inp e ws comps chk w = (Return (), w')"
  shows "created_entities w' - created_entities w
           \<subseteq> {i. GetEntity ws i \<in> set (new_calls w w') \<and> (ws, i) \<in> entities w'}
    \<and> (\<forall>req c. CreateEntity req c \<in> set (new_calls w w') \<longrightarrow>
          entityId req \<notin> created_entities w'
          \<and> calls (snd (entity_exists ws (entityId req) w'))
              = calls w' @ [GetEntity ws (entityId req)])
    \<and> created_entities (snd (create_entity_api comps' ntt ws' chk' v)) = created_entities v
    \<and> created_entities (snd (entity_exists ws' i v)) =
         (if i \<notin> created_entities v \<and> fst (client_get_entity ws' i v) = Return ()
          then insert i (created_entities v) else created_entities v)"
proof -
  from create_iottwinmaker_entity_filled [of ws w n inp e comps chk] assms(2)
  have 1: "created_entities w' - created_entities w
           \<subseteq> {i. GetEntity ws i \<in> set (new_calls w w') \<and> (ws, i) \<in> entities w'}"
    by (auto simp add: filled_by_checks_def new_calls_def)
  have "no_creations ws (length (calls w)) w"
    using assms(1) by (simp add: no_creations_def)
  from valid_Return [OF create_iottwinmaker_entity_uncached this assms(2)]
  have 2: "entityId req \<notin> created_entities w'
          \<and> calls (snd (entity_exists ws (entityId req) w'))
              = calls w' @ [GetEntity ws (entityId req)]"
    if "CreateEntity req c \<in> set (new_calls w w')" for req c
    using that by (auto simp add: uncached_creations_def new_calls_def entity_exists_eq)
  from 1 2 show ?thesis
    by (simp only: create_entity_api_cache entity_exists_cache) blast
qed

text \<open>The chain: \<open>a\<close> is created, is not cached, and its next check calls the service.\<close>

theorem cache_filled_only_by_checks_witness:
  "cache_sound ''ws'' fresh_world
   \<and> create_iottwinmaker_entity (Suc (Suc (Suc 0))) chain_input (bare ''c'' (Some ''b'')) ''ws''
         None False fresh_world
       = (Return (), snd (create_iottwinmaker_entity (Suc (Suc (Suc 0))) chain_input
                            (bare ''c'' (Some ''b'')) ''ws'' None False fresh_world))
   \<and> CreateEntity (ntt_of (bare ''a'' None) ''$ROOT'' ''ws'') None
       \<in> set (new_calls fresh_world
                (snd (create_iottwinmaker_entity (Suc (Suc (Suc 0))) chain_input
                        (bare ''c'' (Some ''b'')) ''ws'' None False fresh_world)))
   \<and> ''a'' \<notin> created_entities
        (snd (create_iottwinmaker_entity (Suc (Suc (Suc 0))) chain_input
                (bare ''c'' (Some ''b'')) ''ws'' None False fresh_world))
   \<and> calls (snd (entity_exists ''ws'' ''a''
        (snd (create_iottwinmaker_entity (Suc (Suc (Suc 0))) chain_input
                (bare ''c'' (Some ''b'')) ''ws'' None False fresh_world))))
       = calls (snd (create_iottwinmaker_entity (Suc (Suc (Suc 0))) chain_input
                (bare ''c'' (Some ''b'')) ''ws'' None False fresh_world))
         @ [GetEntity ''ws'' ''a'']"
proof -
  let ?run = "create_iottwinmaker_entity (Suc (Suc (Suc 0))) chain_input
                (bare ''c'' (Some ''b'')) ''ws'' None False fresh_world"
  have sound: "cache_sound ''ws'' fresh_world"
    by (simp add: cache_sound_def fresh_world_def)
  have chain: "fst ?run = Return ()"
    "calls (snd ?run) = calls fresh_world @
         [GetEntity ''ws'' ''c'', GetEntity ''ws'' ''b'', GetEntity ''ws'' ''b'',
          GetEntity ''ws'' ''a'', GetEntity ''ws'' ''a'',
          CreateEntity (ntt_of (bare ''a'' None) ''$ROOT'' ''ws'') None,
          WaitOverGetEntity ''ws'' ''a'',
          CreateEntity (ntt_of (bare ''b'' (Some ''a'')) ''a'' ''ws'') None,
          WaitOverGetEntity ''ws'' ''b'',
          CreateEntity (ntt_of (bare ''c'' (Some ''b'')) ''b'' ''ws'') None]"
    using chain_run [of fresh_world "''ws''" 0 None] by (simp_all add: fresh_world_def)
  have run: "?run = (Return (), snd ?run)"
    by (rule pair_fst_snd [OF chain(1)])
  have made: "CreateEntity (ntt_of (bare ''a'' None) ''$ROOT'' ''ws'') None
       \<in> set (new_calls fresh_world (snd ?run))"
    by (simp add: new_calls_def chain(2))
  from cache_filled_only_by_checks [OF sound run] made
  have "entityId (ntt_of (bare ''a'' None) ''$ROOT'' ''ws'') \<notin> created_entities (snd ?run)
    \<and> calls (snd (entity_exists ''ws'' (entityId (ntt_of (bare ''a'' None) ''$ROOT'' ''ws''))
         (snd ?run)))
       = calls (snd ?run) @ [GetEntity ''ws'' (entityId (ntt_of (bare ''a'' None) ''$ROOT'' ''ws''))]"
    by blast
  with sound run made show ?thesis
    by (simp add: bare_def)
qed

section \<open>Termination of the resolution\<close>



section \<open>Ancestors before descendants\<close>

text \<open>
  Claim C2. Take any input set, any world whose cache holds only ids that exist in the
  workspace, and the calls of one import, however it ends (it returns, raises, or
  runs out of recursion depth). Whenever a creation call names a parent other than the
  implicit root \<open>$ROOT\<close>, that parent existed remotely when the import started, or a
  creation call for the parent, in the same workspace, was issued before. The synthetic
  roots are created by such calls, so they too come before the record that depends on
  them. Their own requests name no parent.
\<close>

theorem parents_created_first:
  assumes "cache_sound ws w"
    and "create_iottwinmaker_entities n j_data ws comp_id role w = (r, w')"
    and "j < length (new_calls w w')" and "new_calls w w' ! j = CreateEntity req c"
    and "parentEntityId req = Some p" and "p \<noteq> ''$ROOT''"
  shows "(workspaceId req, p) \<in> entities w
     \<or> (\<exists>i<j. \<exists>req' c'. new_calls w w' ! i = CreateEntity req' c' \<and> entityId req' = p
           \<and> workspaceId req' = workspaceId req)"
proof -
  have start: "ordered ws (entities w) (length (calls w)) w"
    using assms(1) by (simp add: ordered_def)
  have "ordered ws (entities w) (length (calls w)) w'"
  proof (cases r)
    case (Return x)
    with valid_Return [OF create_iottwinmaker_entities_ordered start] assms(2) show ?thesis
      by blast
  next
    case (Raise x)
    with valid_other [OF create_iottwinmaker_entities_ordered start assms(2)] show ?thesis
      by simp
  next
    case Diverge
    with valid_other [OF create_iottwinmaker_entities_ordered start assms(2)] show ?thesis
      by simp
  qed
  then have "parents_first (entities w) (new_calls w w')"
    by (simp add: ordered_def new_calls_def)
  from parents_first_explicit [OF this assms(3-6)] show ?thesis .
qed

text \<open>
  The import of the chain into an empty workspace: the creation of \<open>b\<close> is the call
  number 8, and its parent \<open>a\<close> is created by an earlier call.
\<close>

theorem parents_created_first_witness:
  "cache_sound ''ws'' fresh_world
   \<and> new_calls fresh_world
        (snd (create_iottwinmaker_entities (Suc (Suc (Suc 0))) chain_input ''ws'' None None
                fresh_world)) ! 8
      = CreateEntity (ntt_of (bare ''b'' (Some ''a'')) ''a'' ''ws'') chain_comps
   \<and> (\<exists>i<8. \<exists>req' c'.
         new_calls fresh_world
           (snd (create_iottwinmaker_entities (Suc (Suc (Suc 0))) chain_input ''ws'' None None
                   fresh_world)) ! i
         = CreateEntity req' c' \<and> entityId req' = ''a'' \<and> workspaceId req' = ''ws'')"
proof -
  let ?run = "create_iottwinmaker_entities (Suc (Suc (Suc 0))) chain_input ''ws'' None None
                fresh_world"
  have sound: "cache_sound ''ws'' fresh_world"
    by (simp add: cache_sound_def fresh_world_def)
  have run: "?run = (fst ?run, snd ?run)"
    by simp
  have tr: "new_calls fresh_world (snd ?run)
     = [ListWorkspaces, GetEntity ''ws'' ''c'', GetEntity ''ws'' ''b'', GetEntity ''ws'' ''b'',
        GetEntity ''ws'' ''a'', GetEntity ''ws'' ''a'',
        CreateEntity (ntt_of (bare ''a'' None) ''$ROOT'' ''ws'') chain_comps,
        WaitOverGetEntity ''ws'' ''a'',
        CreateEntity (ntt_of (bare ''b'' (Some ''a'')) ''a'' ''ws'') chain_comps,
        WaitOverGetEntity ''ws'' ''b'',
        CreateEntity (ntt_of (bare ''c'' (Some ''b'')) ''b'' ''ws'') chain_comps,
        GetEntity ''ws'' ''b'', GetEntity ''ws'' ''a'']"
    using chain_import_run by (simp add: new_calls_def fresh_world_def)
  have j: "8 < length (new_calls fresh_world (snd ?run))"
    and at: "new_calls fresh_world (snd ?run) ! 8
      = CreateEntity (ntt_of (bare ''b'' (Some ''a'')) ''a'' ''ws'') chain_comps"
    by (simp_all add: tr)
  have par: "parentEntityId (ntt_of (bare ''b'' (Some ''a'')) ''a'' ''ws'') = Some ''a''"
    and nr: "''a'' \<noteq> ''$ROOT''"
    by simp_all
  from parents_created_first [OF sound run j at par nr] sound at show ?thesis
    by (simp add: fresh_world_def)
qed

section \<open>Idempotence\<close>

text \<open>
  Claim C3. Let a first import of an input set return, from a process whose caches
  hold only what exists in the workspace. A second import of the same input set
  against the same remote state (the workspaces, the component types and the entities
  the first import left), by the same process or by a new one whatever its caches,
  and with a service that answers every call, returns for every recursion depth of at
  least one; every call it issues is a read (\<open>listWorkspaces\<close>,
  \<open>listComponentTypes\<close> or \<open>getEntity\<close>), so it issues no creation call at all, and
  the remote state is as before. Each resolution ends at its first existence check.
\<close>

theorem second_run_creates_nothing:
  assumes "cache_sound ws w0"
    and "\<forall>c\<in>created_component_types w0. (ws, c) \<in> set (component_types w0)"
    and "create_iottwinmaker_entities n j_data ws comp_id role w0 = (Return (), w1)"
    and "entities w2 = entities w1" and "workspaces w2 = workspaces w1"
    and "component_types w2 = component_types w1" and "faults w2 = []"
  shows "fst (create_iottwinmaker_entities (Suc m) j_data ws comp_id role w2) = Return ()
    \<and> (\<forall>ev\<in>set (new_calls w2
           (snd (create_iottwinmaker_entities (Suc m) j_data ws comp_id role w2))).
          is_read_call ev)
    \<and> entities (snd (create_iottwinmaker_entities (Suc m) j_data ws comp_id role w2))
        = entities w2
    \<and> workspaces (snd (create_iottwinmaker_entities (Suc m) j_data ws comp_id role w2))
        = workspaces w2
    \<and> component_types (snd (create_iottwinmaker_entities (Suc m) j_data ws comp_id role w2))
        = component_types w2"
proof -
  let ?run = "create_iottwinmaker_entities (Suc m) j_data ws comp_id role w2"
  from first_run_settles [OF assms(1-3)] assms(4-6) have "settled ws comp_id j_data w2"
    by (simp add: settled_def)
  with assms(7) have start: "quiet ws comp_id j_data w2 (length (calls w2)) w2"
    by (simp add: quiet_def)
  obtain r w3 where run: "?run = (r, w3)"
    by (cases ?run)
  have "r = Return () \<and> quiet ws comp_id j_data w2 (length (calls w2)) w3"
  proof (cases r)
    case (Return x)
    with valid_Return [OF import_quiet start] run show ?thesis by simp
  next
    case (Raise x)
    with valid_other [OF import_quiet start run] show ?thesis by simp
  next
    case Diverge
    with valid_other [OF import_quiet start run] show ?thesis by simp
  qed
  with run show ?thesis
    by (simp add: quiet_def new_calls_def)
qed

text \<open>The chain, imported twice into a workspace that was empty.\<close>

theorem second_run_creates_nothing_witness:
  "cache_sound ''ws'' fresh_world
   \<and> create_iottwinmaker_entities (Suc (Suc (Suc 0))) chain_input ''ws'' None None fresh_world
       = (Return (), snd (create_iottwinmaker_entities (Suc (Suc (Suc 0))) chain_input ''ws''
                            None None fresh_world))
   \<and> fst (create_iottwinmaker_entities (Suc 0) chain_input ''ws'' None None
        ((snd (create_iottwinmaker_entities (Suc (Suc (Suc 0))) chain_input ''ws'' None None
                 fresh_world))\<lparr>faults := []\<rparr>)) = Return ()
   \<and> list_all is_read_call
        (new_calls
           ((snd (create_iottwinmaker_entities (Suc (Suc (Suc 0))) chain_input ''ws'' None None
                    fresh_world))\<lparr>faults := []\<rparr>)
           (snd (create_iottwinmaker_entities (Suc 0) chain_input ''ws'' None None
              ((snd (create_iottwinmaker_entities (Suc (Suc (Suc 0))) chain_input ''ws'' None
                       None fresh_world))\<lparr>faults := []\<rparr>))))"
proof -
  let ?run1 = "create_iottwinmaker_entities (Suc (Suc (Suc 0))) chain_input ''ws'' None None
                 fresh_world"
  have sound: "cache_sound ''ws'' fresh_world"
    by (simp add: cache_sound_def fresh_world_def)
  have csound: "\<forall>c\<in>created_component_types fresh_world.
      (''ws'', c) \<in> set (component_types fresh_world)"
    by (simp add: fresh_world_def)
  have r1: "?run1 = (Return (), snd ?run1)"
    by (rule pair_fst_snd) (simp add: chain_import_run)
  from second_run_creates_nothing [OF sound csound r1, of "(snd ?run1)\<lparr>faults := []\<rparr>" 0]
    sound r1
  show ?thesis
    by (simp add: list_all_iff)
qed

end
